theory Spec2Isabelle
  imports Complex_Main
begin

section \<open>Go strings\<close>

text \<open>
  A Go \<^verbatim>\<open>string\<close> is a sequence of bytes and \<^verbatim>\<open>len\<close> counts bytes; HOL's
  \<^typ>\<open>string\<close> is a list of 8-bit characters, so the two agree. The functions of
  package \<^verbatim>\<open>strings\<close> that the detection package calls are modelled byte-wise, as
  the library documents them.
\<close>

fun HasPrefix :: "string \<Rightarrow> string \<Rightarrow> bool" where
  "HasPrefix s [] = True"
| "HasPrefix [] (p # ps) = False"
| "HasPrefix (c # cs) (p # ps) = (c = p \<and> HasPrefix cs ps)"

text \<open>\<^verbatim>\<open>strings.Contains(s, substr)\<close>: \<^verbatim>\<open>substr\<close> occurs in \<^verbatim>\<open>s\<close>.\<close>

fun Contains :: "string \<Rightarrow> string \<Rightarrow> bool" where
  "Contains [] sub = HasPrefix [] sub"
| "Contains (c # cs) sub = (HasPrefix (c # cs) sub \<or> Contains cs sub)"

text \<open>\<^verbatim>\<open>strings.HasSuffix(s, suffix)\<close>.\<close>

definition HasSuffix :: "string \<Rightarrow> string \<Rightarrow> bool" where
  "HasSuffix s suffix =
     (length suffix \<le> length s \<and> drop (length s - length suffix) s = suffix)"

text \<open>
  \<^verbatim>\<open>strings.Count(s, sep)\<close> and \<^verbatim>\<open>strings.Split(s, sep)\<close> are only called with a
  separator of one byte (\<^verbatim>\<open>"."\<close> and \<^verbatim>\<open>"@"\<close>); the model takes that byte.
  \<^verbatim>\<open>Split\<close> returns one part more than there are separators, so the empty string
  splits into one empty part.
\<close>

definition Count :: "string \<Rightarrow> char \<Rightarrow> nat" where
  "Count s sep = length (filter (\<lambda>c. c = sep) s)"

fun Split :: "string \<Rightarrow> char \<Rightarrow> string list" where
  "Split [] sep = [[]]"
| "Split (c # cs) sep =
     (if c = sep then [] # Split cs sep
      else (case Split cs sep of
              [] \<Rightarrow> [[c]]
            | p # ps \<Rightarrow> (c # p) # ps))"

text \<open>\<^verbatim>\<open>strings.Join(elems, sep)\<close>.\<close>

fun Join :: "string list \<Rightarrow> string \<Rightarrow> string" where
  "Join [] sep = []"
| "Join [e] sep = e"
| "Join (e # e' # es) sep = e @ sep @ Join (e' # es) sep"

text \<open>
  \<^verbatim>\<open>strings.ToLower(s)\<close>. On a string of ASCII bytes the library maps \<^verbatim>\<open>'A'..'Z'\<close>
  to \<^verbatim>\<open>'a'..'z'\<close> byte by byte. On a string with a byte \<^verbatim>\<open>>= 0x80\<close> it returns
  \<^verbatim>\<open>strings.Map(unicode.ToLower, s)\<close>, which depends on the Unicode case tables of
  the Go distribution: that mapping is the parameter \<open>um\<close> of the model, and every
  theorem below holds for every \<open>um\<close>.
\<close>

definition isASCII :: "char \<Rightarrow> bool" where
  "isASCII c = ((of_char c :: nat) < 128)"

definition lowerASCII :: "char \<Rightarrow> char" where
  "lowerASCII c =
     (if (65::nat) \<le> of_char c \<and> (of_char c :: nat) \<le> 90
      then char_of ((of_char c :: nat) + 32) else c)"

definition ToLower :: "(string \<Rightarrow> string) \<Rightarrow> string \<Rightarrow> string" where
  "ToLower um s = (if list_all isASCII s then map lowerASCII s else um s)"

section \<open>Go float64\<close>

text \<open>
  Scores and confidences are \<^verbatim>\<open>float64\<close>. A finite \<^verbatim>\<open>float64\<close> is a rational
  number, and each arithmetic operation of IEEE 754 binary64 returns the exact result
  rounded to 53 significant bits, ties to even. The model keeps the rational and rounds
  after every operation, as the code does when it executes the operations one by one,
  which is how the Go compiler translates it for amd64 (no fused multiply-add). The
  exponent is not bounded: overflow, subnormal numbers and NaN are not modelled; the
  strategies compute on string lengths and keyword counts, far from both ends of the
  exponent range.
\<close>

type_synonym float64 = rat

function exp_up :: "rat \<Rightarrow> int" where
  "exp_up x = (if 2 \<le> x then exp_up (x / 2) + 1 else 0)"
  by pat_completeness auto
termination
proof (relation "measure (\<lambda>x. nat \<lfloor>x\<rfloor>)")
  show "wf (measure (\<lambda>x::rat. nat \<lfloor>x\<rfloor>))" by simp
next
  fix x :: rat assume h: "2 \<le> x"
  have "\<lfloor>x / 2\<rfloor> < \<lfloor>x\<rfloor>" using h by linarith
  moreover have "0 < \<lfloor>x\<rfloor>" using h by linarith
  ultimately show "(x / 2, x) \<in> measure (\<lambda>x. nat \<lfloor>x\<rfloor>)" by simp
qed

function exp_down :: "rat \<Rightarrow> int" where
  "exp_down x = (if 0 < x \<and> x < 1 then exp_down (x * 2) - 1 else 0)"
  by pat_completeness auto
termination
proof (relation "measure (\<lambda>x. nat \<lfloor>1 / x\<rfloor>)")
  show "wf (measure (\<lambda>x::rat. nat \<lfloor>1 / x\<rfloor>))" by simp
next
  fix x :: rat assume h: "0 < x \<and> x < 1"
  then have a: "1 < 1 / x" by simp
  have b: "1 \<le> \<lfloor>1 / x\<rfloor>" using a by linarith
  have "(1 / x) / 2 < of_int \<lfloor>1 / x\<rfloor>"
  proof (cases "1 / x < 2")
    case True
    then have "(1 / x) / 2 < 1" by simp
    also have "(1::rat) \<le> of_int \<lfloor>1 / x\<rfloor>" using b by linarith
    finally show ?thesis .
  next
    case False
    then have "(1 / x) / 2 \<le> 1 / x - 1" by simp
    also have "\<dots> < of_int \<lfloor>1 / x\<rfloor>" by linarith
    finally show ?thesis .
  qed
  then have "\<lfloor>(1 / x) / 2\<rfloor> < \<lfloor>1 / x\<rfloor>" by (simp add: floor_less_iff)
  moreover have "1 / (x * 2) = (1 / x) / 2" by simp
  ultimately have "\<lfloor>1 / (x * 2)\<rfloor> < \<lfloor>1 / x\<rfloor>" by presburger
  then show "(x * 2, x) \<in> measure (\<lambda>x. nat \<lfloor>1 / x\<rfloor>)" using b by simp
qed

text \<open>The binary exponent \<open>e\<close> of \<open>x \<noteq> 0\<close>: \<open>2 powi e \<le> \<bar>x\<bar> < 2 powi (e + 1)\<close>.\<close>

definition exponent :: "rat \<Rightarrow> int" where
  "exponent x = (if 1 \<le> \<bar>x\<bar> then exp_up \<bar>x\<bar> else exp_down \<bar>x\<bar>)"

text \<open>Rounding to the nearest integer, ties to the even one.\<close>

definition rne :: "rat \<Rightarrow> int" where
  "rne q = (let n = \<lfloor>q\<rfloor>; r = q - of_int n
            in if r < 1 / 2 then n
               else if 1 / 2 < r then n + 1
               else if even n then n else n + 1)"

definition round64 :: "rat \<Rightarrow> float64" where
  "round64 x = (if x = 0 then 0
                else let ulp = 2 powi (exponent x - 52)
                     in of_int (rne (x / ulp)) * ulp)"

text \<open>
  A decimal constant of the source is the \<^verbatim>\<open>float64\<close> nearest to it; \<open>fadd\<close>,
  \<open>fsub\<close>, \<open>fmul\<close> and \<open>fdiv\<close> are \<^verbatim>\<open>+\<close>, \<^verbatim>\<open>-\<close>, \<^verbatim>\<open>*\<close> and \<^verbatim>\<open>/\<close> on
  \<^verbatim>\<open>float64\<close>; \<open>float64_of_nat\<close> is the conversion \<^verbatim>\<open>float64(n)\<close> of a
  non-negative \<^verbatim>\<open>int\<close>. Comparisons are those of the rationals.
\<close>

definition f64 :: "rat \<Rightarrow> float64" where
  "f64 x = round64 x"

definition fadd :: "float64 \<Rightarrow> float64 \<Rightarrow> float64" where
  "fadd x y = round64 (x + y)"

definition fsub :: "float64 \<Rightarrow> float64 \<Rightarrow> float64" where
  "fsub x y = round64 (x - y)"

definition fmul :: "float64 \<Rightarrow> float64 \<Rightarrow> float64" where
  "fmul x y = round64 (x * y)"

definition fdiv :: "float64 \<Rightarrow> float64 \<Rightarrow> float64" where
  "fdiv x y = round64 (x / y)"

definition float64_of_nat :: "nat \<Rightarrow> float64" where
  "float64_of_nat n = round64 (of_nat n)"

section \<open>Domain model (internal/domain/models.go)\<close>

text \<open>
  The records keep the fields that the detection package reads or writes. Tenant, user
  and provider identifiers and the timestamps of \<^verbatim>\<open>Email\<close>, \<^verbatim>\<open>User\<close> and
  \<^verbatim>\<open>FraudAnalysis\<close> are never read by it, and \<^verbatim>\<open>AnalyzeEmail\<close> leaves the
  analysis's own \<^verbatim>\<open>ID\<close> and \<^verbatim>\<open>AnalyzedAt\<close> at their zero values. A
  \<^verbatim>\<open>uuid.UUID\<close> is its 16 bytes. \<^verbatim>\<open>Headers\<close> is a Go map: a partial function.
  The optional recipient \<^verbatim>\<open>*domain.User\<close> is a \<^typ>\<open>'a option\<close>, \<^verbatim>\<open>nil\<close> being
  \<^const>\<open>None\<close>, and so is the result \<^verbatim>\<open>*domain.Detection\<close> of a strategy.
\<close>

record User =
  UserEmail :: string
  DisplayName :: string
  Role :: string

record Email =
  ID :: string
  Subject :: string
  SenderEmail :: string
  SenderName :: string
  RecipientEmail :: string
  HasAttachments :: bool
  AttachmentNames :: "string list"
  BodyPreview :: string
  Headers :: "string \<rightharpoonup> string"

record Detection =
  Type :: string
  Confidence :: float64
  Evidence :: string

record FraudAnalysis =
  EmailID :: string
  RiskScore :: float64
  RiskLevel :: string
  DetectedThreats :: "Detection list"

text \<open>\<^verbatim>\<open>RiskLevel(score)\<close>: the first case of the \<^verbatim>\<open>switch\<close> that holds.\<close>

definition RiskLevelOf :: "float64 \<Rightarrow> string" where
  "RiskLevelOf score =
     (if f64 (85 / 100) \<le> score then ''critical''
      else if f64 (70 / 100) \<le> score then ''high''
      else if f64 (50 / 100) \<le> score then ''medium''
      else if f64 (30 / 100) \<le> score then ''low''
      else ''none'')"

section \<open>Formatting (package fmt)\<close>

text \<open>
  The evidence strings are built by \<^verbatim>\<open>fmt.Sprintf\<close> with the verbs \<^verbatim>\<open>%s\<close>,
  \<^verbatim>\<open>%d\<close> and \<^verbatim>\<open>%.Nf\<close>. \<open>Itoa\<close> is the decimal form of a non-negative
  integer; \<open>FormatFixed p x\<close> is \<^verbatim>\<open>%.pf\<close> for \<open>0 < p\<close>: the exact value of
  \<open>x\<close> rounded to \<open>p\<close> decimal places, ties to even.
\<close>

definition digit :: "nat \<Rightarrow> char" where
  "digit n = char_of (48 + n)"

fun Itoa :: "nat \<Rightarrow> string" where
  "Itoa n = (if n < 10 then [digit n] else Itoa (n div 10) @ [digit (n mod 10)])"

definition FormatFixed :: "nat \<Rightarrow> float64 \<Rightarrow> string" where
  "FormatFixed p x =
     (let n = nat (rne (\<bar>x\<bar> * 10 ^ p));
          frac = Itoa (n mod 10 ^ p)
      in (if x < 0 then ''-'' else []) @ Itoa (n div 10 ^ p) @ ''.'' @
         replicate (p - length frac) (CHR ''0'') @ frac)"

section \<open>Shared helpers (internal/domain/detection/helpers.go)\<close>

text \<open>
  \<^verbatim>\<open>ValidateEmail\<close>, a regular-expression match that nothing in the package calls,
  is left out.
\<close>

fun isInternalDomain :: "string \<Rightarrow> string list \<Rightarrow> bool" where
  "isInternalDomain domain [] = False"
| "isInternalDomain domain (internal # internalDomains) =
     (if domain = internal then True else isInternalDomain domain internalDomains)"

definition extractDomain :: "(string \<Rightarrow> string) \<Rightarrow> string \<Rightarrow> string" where
  "extractDomain um email =
     (let parts = Split email (CHR ''@'')
      in if length parts \<noteq> 2 then [] else ToLower um (parts ! 1))"

text \<open>
  \<^verbatim>\<open>levenshteinDistance\<close> fills a table of \<open>len(s1)+1\<close> rows and \<open>len(s2)+1\<close>
  columns, a list of rows here. The two initialisation loops and the two nested loops
  are folds over the index ranges of the source; every index they read or write lies
  inside the table. The entries are Go \<^verbatim>\<open>int\<close>s that never exceed
  \<open>len(s1) + len(s2)\<close>, natural numbers here. \<open>min3\<close> is the built-in \<^verbatim>\<open>min\<close>
  of three arguments.
\<close>

definition min3 :: "nat \<Rightarrow> nat \<Rightarrow> nat \<Rightarrow> nat" where
  "min3 a b c = min (min a b) c"

definition lev_cell :: "string \<Rightarrow> string \<Rightarrow> nat \<Rightarrow> nat \<Rightarrow> nat list list \<Rightarrow> nat list list" where
  "lev_cell s1 s2 i j matrix =
     (let cost = (if s1 ! (i - 1) = s2 ! (j - 1) then 0 else 1)
      in matrix[i := (matrix ! i)[j :=
           min3 (matrix ! (i - 1) ! j + 1)
                (matrix ! i ! (j - 1) + 1)
                (matrix ! (i - 1) ! (j - 1) + cost)]])"

definition lev_init :: "nat \<Rightarrow> nat \<Rightarrow> nat list list" where
  "lev_init n1 n2 =
     (let matrix = replicate (n1 + 1) (replicate (n2 + 1) 0);
          matrix = fold (\<lambda>i matrix. matrix[i := (matrix ! i)[0 := i]]) [0..<n1 + 1] matrix
      in fold (\<lambda>j matrix. matrix[0 := (matrix ! 0)[j := j]]) [0..<n2 + 1] matrix)"

definition lev_fill :: "string \<Rightarrow> string \<Rightarrow> nat list list \<Rightarrow> nat list list" where
  "lev_fill s1 s2 matrix =
     fold (\<lambda>i matrix. fold (\<lambda>j matrix. lev_cell s1 s2 i j matrix) [1..<length s2 + 1] matrix)
          [1..<length s1 + 1] matrix"

definition levenshteinDistance :: "string \<Rightarrow> string \<Rightarrow> nat" where
  "levenshteinDistance s1 s2 =
     (if length s1 = 0 then length s2
      else if length s2 = 0 then length s1
      else lev_fill s1 s2 (lev_init (length s1) (length s2)) ! length s1 ! length s2)"

fun containsAny :: "string \<Rightarrow> string list \<Rightarrow> bool" where
  "containsAny text [] = False"
| "containsAny text (keyword # keywords) =
     (if Contains text keyword then True else containsAny text keywords)"

definition hasUrgencyLanguage :: "(string \<Rightarrow> string) \<Rightarrow> Email \<Rightarrow> bool" where
  "hasUrgencyLanguage um email =
     (let text = ToLower um (Subject email @ '' '' @ BodyPreview email);
          urgencyKeywords = [''urgent'', ''immediately'', ''asap'', ''right away'', ''today'']
      in containsAny text urgencyKeywords)"

section \<open>Detection context (internal/domain/detection/strategy.go)\<close>

record DetectionContext =
  InternalDomains :: "string list"
  TrustedDomains :: "string list"

definition NewDetectionContext :: "string list \<Rightarrow> string list \<Rightarrow> DetectionContext" where
  "NewDetectionContext internalDomains trustedDomains =
     \<lparr>InternalDomains = internalDomains, TrustedDomains = trustedDomains\<rparr>"

section \<open>Display-name strategy (display_name_strategy.go)\<close>

definition execTitles :: "string list" where
  "execTitles = [''ceo'', ''cfo'', ''president'', ''director'', ''chief'', ''vp'', ''vice president'']"

definition DisplayNameStrategy_Detect ::
  "(string \<Rightarrow> string) \<Rightarrow> Email \<Rightarrow> User option \<Rightarrow> DetectionContext \<Rightarrow> Detection option" where
  "DisplayNameStrategy_Detect um email recipient context =
     (let displayName = ToLower um (SenderName email);
          senderDomain = extractDomain um (SenderEmail email);
          hasExecTitle = list_ex (\<lambda>title. Contains displayName title) execTitles;
          isExternal = (\<not> isInternalDomain senderDomain (InternalDomains context))
      in if hasExecTitle \<and> isExternal
         then Some \<lparr>Type = ''DISPLAY_NAME_MISMATCH'', Confidence = f64 (85 / 100),
                    Evidence = ''Display name '' @ [CHR 0x27] @ SenderName email @ [CHR 0x27] @
                      '' contains executive title but sender domain '' @ [CHR 0x27] @
                      senderDomain @ [CHR 0x27] @ '' is external''\<rparr>
         else None)"

section \<open>Typosquatting strategy (\<^verbatim>\<open>TyposquattingStrategy\<close>)\<close>

text \<open>
  The loop over \<^verbatim>\<open>context.TrustedDomains\<close> is \<open>typosquatting_loop\<close>: it returns at
  the first trusted domain that passes the threshold. \<open>similarity\<close> is the value the
  loop body computes; its division is only reached with two different strings, so
  \<^verbatim>\<open>maxLen\<close> is positive there.
\<close>

definition similarity :: "string \<Rightarrow> string \<Rightarrow> float64" where
  "similarity senderDomain trustedDomain =
     (let distance = levenshteinDistance senderDomain trustedDomain;
          maxLen = float64_of_nat (max (length senderDomain) (length trustedDomain))
      in fmul (fsub 1 (fdiv (float64_of_nat distance) maxLen)) 100)"

fun typosquatting_loop :: "string \<Rightarrow> string list \<Rightarrow> Detection option" where
  "typosquatting_loop senderDomain [] = None"
| "typosquatting_loop senderDomain (trustedDomain # trustedDomains) =
     (if senderDomain = trustedDomain then typosquatting_loop senderDomain trustedDomains
      else if 85 < similarity senderDomain trustedDomain \<and>
              similarity senderDomain trustedDomain < 100
      then Some \<lparr>Type = ''DOMAIN_TYPOSQUATTING'', Confidence = f64 (90 / 100),
                 Evidence = ''Sender domain '' @ [CHR 0x27] @ senderDomain @ [CHR 0x27] @
                   '' is '' @ FormatFixed 1 (similarity senderDomain trustedDomain) @
                   ''% similar to trusted domain '' @ [CHR 0x27] @ trustedDomain @
                   [CHR 0x27] @ '' (potential typosquatting)''\<rparr>
      else typosquatting_loop senderDomain trustedDomains)"

definition TyposquattingStrategy_Detect ::
  "(string \<Rightarrow> string) \<Rightarrow> Email \<Rightarrow> User option \<Rightarrow> DetectionContext \<Rightarrow> Detection option" where
  "TyposquattingStrategy_Detect um email recipient context =
     typosquatting_loop (extractDomain um (SenderEmail email)) (TrustedDomains context)"

section \<open>Authentication-failures strategy (auth_failures_strategy.go)\<close>

definition AuthFailuresStrategy_failures :: "(string \<Rightarrow> string) \<Rightarrow> Email \<Rightarrow> string list" where
  "AuthFailuresStrategy_failures um email =
     (let failures = [];
          failures = (case Headers email ''Received-SPF'' of
                        None \<Rightarrow> failures
                      | Some spf \<Rightarrow>
                          if Contains (ToLower um spf) ''fail''
                          then failures @ [''SPF_FAIL''] else failures)
      in case Headers email ''Authentication-Results'' of
           None \<Rightarrow> failures
         | Some authResults \<Rightarrow>
             (let failures = (if Contains (ToLower um authResults) ''dkim=fail''
                              then failures @ [''DKIM_FAIL''] else failures)
              in if Contains (ToLower um authResults) ''dmarc=fail''
                 then failures @ [''DMARC_FAIL''] else failures))"

definition AuthFailuresStrategy_Detect ::
  "(string \<Rightarrow> string) \<Rightarrow> Email \<Rightarrow> User option \<Rightarrow> DetectionContext \<Rightarrow> Detection option" where
  "AuthFailuresStrategy_Detect um email recipient context =
     (let failures = AuthFailuresStrategy_failures um email
      in if 2 \<le> length failures
         then Some \<lparr>Type = ''AUTH_FAILURES'', Confidence = f64 (80 / 100),
                    Evidence = ''Email authentication failures: '' @ Join failures '', ''\<rparr>
         else None)"

section \<open>Urgency and financial language strategy (\<^verbatim>\<open>UrgencyFinancialStrategy\<close>)\<close>

definition countKeywords :: "string \<Rightarrow> string list \<Rightarrow> nat" where
  "countKeywords text keywords =
     fold (\<lambda>keyword count. if Contains text keyword then count + 1 else count) keywords 0"

definition uf_urgencyKeywords :: "string list" where
  "uf_urgencyKeywords =
     [''urgent'', ''immediately'', ''asap'', ''right away'', ''time sensitive'',
      ''today'', ''end of day'', ''eod'', ''quick'', ''need this now'', ''hurry'']"

definition uf_financialKeywords :: "string list" where
  "uf_financialKeywords =
     [''wire transfer'', ''payment'', ''invoice'', ''bank account'', ''routing number'',
      ''swift'', ''ach'', ''wire'', ''fund'', ''transfer'', ''pay'', ''urgent payment'',
      ''gift card'', ''itunes'', ''google play'', ''prepaid card'']"

definition uf_authorityKeywords :: "string list" where
  "uf_authorityKeywords =
     [''ceo'', ''president'', ''director'', ''approved'', ''authorized'', ''confidential'',
      ''do not discuss'', ''between us'', ''sensitive'', ''private'']"

definition uf_score :: "nat \<Rightarrow> nat \<Rightarrow> nat \<Rightarrow> float64" where
  "uf_score urgencyCount financialCount authorityCount =
     fadd (fadd (fmul (float64_of_nat urgencyCount) (f64 (3 / 10)))
                (fmul (float64_of_nat financialCount) (f64 (5 / 10))))
          (fmul (float64_of_nat authorityCount) (f64 (2 / 10)))"

definition uf_confidence :: "float64 \<Rightarrow> float64" where
  "uf_confidence score =
     min (fadd (f64 (70 / 100)) (fmul (fsub score (f64 (15 / 10))) (f64 (1 / 10))))
         (f64 (95 / 100))"

definition UrgencyFinancialStrategy_Detect ::
  "(string \<Rightarrow> string) \<Rightarrow> Email \<Rightarrow> User option \<Rightarrow> DetectionContext \<Rightarrow> Detection option" where
  "UrgencyFinancialStrategy_Detect um email recipient context =
     (let text = ToLower um (Subject email @ '' '' @ BodyPreview email);
          urgencyCount = countKeywords text uf_urgencyKeywords;
          financialCount = countKeywords text uf_financialKeywords;
          authorityCount = countKeywords text uf_authorityKeywords;
          score = uf_score urgencyCount financialCount authorityCount
      in if f64 (15 / 10) < score
         then Some \<lparr>Type = ''URGENCY_FINANCIAL_LANGUAGE'', Confidence = uf_confidence score,
                    Evidence = ''High-risk language detected (score: '' @ FormatFixed 2 score @
                      ''): '' @ Itoa urgencyCount @ '' urgency, '' @ Itoa financialCount @
                      '' financial, '' @ Itoa authorityCount @ '' authority keywords''\<rparr>
         else None)"

section \<open>Reply-To strategy (reply_to_strategy.go)\<close>

text \<open>Reading a Go map at an absent key gives the zero value, the empty string.\<close>

definition header :: "Email \<Rightarrow> string \<Rightarrow> string" where
  "header email key = (case Headers email key of None \<Rightarrow> [] | Some v \<Rightarrow> v)"

definition freeEmailDomains :: "string list" where
  "freeEmailDomains = [''gmail.com'', ''yahoo.com'', ''hotmail.com'', ''outlook.com'', ''aol.com'']"

definition ReplyToStrategy_Detect ::
  "(string \<Rightarrow> string) \<Rightarrow> Email \<Rightarrow> User option \<Rightarrow> DetectionContext \<Rightarrow> Detection option" where
  "ReplyToStrategy_Detect um email recipient context =
     (let senderEmail = ToLower um (SenderEmail email);
          replyTo = ToLower um (header email ''Reply-To'')
      in if replyTo = [] \<or> replyTo = senderEmail then None
         else let senderDomain = extractDomain um senderEmail;
                  replyToDomain = extractDomain um replyTo;
                  isFreemail = list_ex (\<lambda>freeDomain. replyToDomain = freeDomain) freeEmailDomains
              in if isFreemail \<and> replyToDomain \<noteq> senderDomain
                 then Some \<lparr>Type = ''REPLY_TO_MISMATCH'', Confidence = f64 (75 / 100),
                            Evidence = ''Sender: '' @ senderEmail @ '', Reply-To: '' @ replyTo @
                              '' (free email service, redirects responses)''\<rparr>
                 else None)"

section \<open>Attachment strategy (\<^verbatim>\<open>AttachmentStrategy\<close>)\<close>

definition highRiskExtensions :: "string list" where
  "highRiskExtensions =
     [''.exe'', ''.scr'', ''.bat'', ''.cmd'', ''.com'', ''.pif'',
      ''.vbs'', ''.js'', ''.jar'', ''.msi'', ''.app'']"

definition mediumRiskExtensions :: "string list" where
  "mediumRiskExtensions = [''.doc'', ''.xls'', ''.xlsm'', ''.docm'', ''.pptm'']"

text \<open>
  The body of the loop over \<^verbatim>\<open>email.AttachmentNames\<close> for one name: the signal it
  returns, or \<^const>\<open>None\<close> when the loop goes on to the next name. Each inner loop
  over a list of extensions returns at the first extension that matches; what it
  returns does not depend on which one matched.
\<close>

definition attachment_check :: "(string \<Rightarrow> string) \<Rightarrow> Email \<Rightarrow> string \<Rightarrow> Detection option" where
  "attachment_check um email name =
     (let filename = ToLower um name
      in if list_ex (\<lambda>ext. HasSuffix filename ext) highRiskExtensions
         then Some \<lparr>Type = ''HIGH_RISK_ATTACHMENT'', Confidence = f64 (90 / 100),
                    Evidence = ''High-risk attachment type: '' @ name\<rparr>
         else let dotCount = Count filename (CHR ''.'')
              in if 1 < dotCount
                 then Some \<lparr>Type = ''SUSPICIOUS_ATTACHMENT_NAME'', Confidence = f64 (85 / 100),
                            Evidence = ''Suspicious attachment name (double extension): '' @ name\<rparr>
                 else if list_ex (\<lambda>ext. HasSuffix filename ext \<and> hasUrgencyLanguage um email)
                           mediumRiskExtensions
                 then Some \<lparr>Type = ''MEDIUM_RISK_ATTACHMENT_WITH_URGENCY'',
                            Confidence = f64 (70 / 100),
                            Evidence = ''Medium-risk attachment + urgent language: '' @ name\<rparr>
                 else None)"

fun attachment_loop :: "(string \<Rightarrow> string) \<Rightarrow> Email \<Rightarrow> string list \<Rightarrow> Detection option" where
  "attachment_loop um email [] = None"
| "attachment_loop um email (name # names) =
     (case attachment_check um email name of
        Some detection \<Rightarrow> Some detection
      | None \<Rightarrow> attachment_loop um email names)"

definition AttachmentStrategy_Detect ::
  "(string \<Rightarrow> string) \<Rightarrow> Email \<Rightarrow> User option \<Rightarrow> DetectionContext \<Rightarrow> Detection option" where
  "AttachmentStrategy_Detect um email recipient context =
     (if \<not> HasAttachments email then None
      else attachment_loop um email (AttachmentNames email))"

section \<open>BEC role-targeting strategy (bec_role_strategy.go)\<close>

text \<open>The UTF-8 encodings of the accented letters in the French keywords.\<close>

definition e_acute :: string where
  "e_acute = [CHR 0xC3, CHR 0xA9]"

definition e_grave :: string where
  "e_grave = [CHR 0xC3, CHR 0xA8]"

definition o_circumflex :: string where
  "o_circumflex = [CHR 0xC3, CHR 0xB4]"

definition degree_sign :: string where
  "degree_sign = [CHR 0xC2, CHR 0xB0]"

definition cSuiteRoles :: "string list" where
  "cSuiteRoles =
     [''ceo'',
      ''cfo'',
      ''cto'',
      ''coo'',
      ''president'',
      ''chief'',
      ''vice president'',
      ''vp'',
      ''pdg'',
      ''pr'' @ e_acute @ ''sident directeur g'' @ e_acute @ ''n'' @ e_acute @ ''ral'',
      ''directeur g'' @ e_acute @ ''n'' @ e_acute @ ''ral'',
      ''dg'',
      ''daf'',
      ''directeur administratif et financier'',
      ''directeur financier'',
      ''dsi'',
      ''directeur des syst'' @ e_grave @ ''mes d'information'',
      ''directeur'',
      ''direction g'' @ e_acute @ ''n'' @ e_acute @ ''rale'']"

definition financeRoles :: "string list" where
  "financeRoles =
     [''finance'',
      ''accounting'',
      ''treasurer'',
      ''controller'',
      ''payroll'',
      ''comptabilit'' @ e_acute,
      ''comptable'',
      ''tr'' @ e_acute @ ''sorier'',
      ''tr'' @ e_acute @ ''sorerie'',
      ''contr'' @ o_circumflex @ ''leur de gestion'',
      ''contr'' @ o_circumflex @ ''leur financier'',
      ''responsable financier'',
      ''responsable comptable'',
      ''service comptable'',
      ''paie'']"

definition hrRoles :: "string list" where
  "hrRoles =
     [''hr'',
      ''human resources'',
      ''recruiting'',
      ''talent'',
      ''drh'',
      ''directeur des ressources humaines'',
      ''ressources humaines'',
      ''rh'',
      ''responsable rh'',
      ''responsable ressources humaines'',
      ''recrutement'',
      ''gestionnaire paie'',
      ''service rh'']"

definition bec_urgencyKeywords :: "string list" where
  "bec_urgencyKeywords =
     [''urgent'',
      ''immediately'',
      ''asap'',
      ''today'',
      ''right away'',
      ''now'',
      ''urgent'',
      ''imm'' @ e_acute @ ''diatement'',
      ''rapidement'',
      ''aujourd'hui'',
      ''tout de suite'',
      ''au plus vite'',
      ''dans l'imm'' @ e_acute @ ''diat'',
      ''sans d'' @ e_acute @ ''lai'',
      ''prioritaire'',
      ''en urgence'']"

definition wireTransferKeywords :: "string list" where
  "wireTransferKeywords =
     [''wire transfer'',
      ''payment'',
      ''invoice'',
      ''bank account'',
      ''routing'',
      ''iban'',
      ''swift'',
      ''virement'',
      ''virement bancaire'',
      ''paiement'',
      ''facture'',
      ''compte bancaire'',
      ''rib'',
      ''relev'' @ e_acute @ '' d'identit'' @ e_acute @ '' bancaire'',
      ''iban'',
      ''bic'',
      ''swift'',
      ''coordonn'' @ e_acute @ ''es bancaires'',
      ''ordre de virement'',
      ''transfert de fonds'']"

definition payrollDocKeywords :: "string list" where
  "payrollDocKeywords =
     [''tax form'',
      ''payroll'',
      ''bulletin de paie'',
      ''bulletin de salaire'',
      ''fiche de paie'',
      ''num'' @ e_acute @ ''ro de s'' @ e_acute @ ''curit'' @ e_acute @ '' sociale'',
      ''n'' @ degree_sign @ '' s'' @ e_acute @ ''curit'' @ e_acute @ '' sociale'',
      ''cotisations sociales'',
      ''d'' @ e_acute @ ''claration de revenus'',
      ''dsn'',
      ''d'' @ e_acute @ ''claration sociale nominative'',
      ''attestation fiscale'',
      ''salaires'']"

definition BECRoleStrategy_Detect ::
  "(string \<Rightarrow> string) \<Rightarrow> Email \<Rightarrow> User option \<Rightarrow> DetectionContext \<Rightarrow> Detection option" where
  "BECRoleStrategy_Detect um email recipient context =
     (case recipient of
        None \<Rightarrow> None
      | Some rcpt \<Rightarrow>
          if Role rcpt = [] then None
          else let role = ToLower um (Role rcpt);
                   senderDomain = extractDomain um (SenderEmail email);
                   isExternal = (\<not> isInternalDomain senderDomain (InternalDomains context))
               in if \<not> isExternal then None
                  else let isCsuite = containsAny role cSuiteRoles;
                           isFinance = containsAny role financeRoles;
                           isHR = containsAny role hrRoles
                       in if \<not> isCsuite \<and> \<not> isFinance \<and> \<not> isHR then None
                          else let text = ToLower um (Subject email @ '' '' @ BodyPreview email);
                                   hasUrgency = containsAny text bec_urgencyKeywords;
                                   hasWireTransfer = containsAny text wireTransferKeywords;
                                   hasPayrollDoc = containsAny text payrollDocKeywords
                               in if isCsuite \<and> hasUrgency \<and> hasWireTransfer
                                  then Some \<lparr>Type = ''BEC_CSUITE_TARGETING'',
                                    Confidence = f64 (90 / 100),
                                    Evidence = ''Executive recipient ('' @ Role rcpt @
                                      '') + external sender + urgent wire transfer request (potential CEO fraud/Fraude au pr'' @
                                      e_acute @ ''sident)''\<rparr>
                                  else if isFinance \<and> hasWireTransfer
                                  then Some \<lparr>Type = ''BEC_FINANCE_TARGETING'',
                                    Confidence = f64 (85 / 100),
                                    Evidence = ''Finance role ('' @ Role rcpt @
                                      '') + external sender + payment/wire transfer language (potential invoice fraud)''\<rparr>
                                  else if isHR \<and> hasPayrollDoc
                                  then Some \<lparr>Type = ''BEC_HR_PAYROLL_SCAM'',
                                    Confidence = f64 (80 / 100),
                                    Evidence = ''HR role ('' @ Role rcpt @
                                      '') + external sender + payroll/tax document request (W-2/bulletin de paie phishing)''\<rparr>
                                  else if (isCsuite \<or> isFinance \<or> isHR) \<and> hasUrgency
                                  then Some \<lparr>Type = ''BEC_HIGH_VALUE_TARGET'',
                                    Confidence = f64 (70 / 100),
                                    Evidence = ''High-value role ('' @ Role rcpt @
                                      '') + external sender + urgent language''\<rparr>
                                  else None)"

section \<open>The detector (internal/domain/detection/strategy.go)\<close>

text \<open>
  The interface \<^verbatim>\<open>DetectionStrategy\<close> has the seven implementations of the package;
  \<open>Detect\<close> is the dynamic dispatch on the strategy. The field \<^verbatim>\<open>context\<close> of
  \<^verbatim>\<open>Detector\<close> is \<open>dcontext\<close>, \<open>context\<close> being a keyword of Isabelle.
\<close>

datatype DetectionStrategy =
    DisplayNameStrategy
  | TyposquattingStrategy
  | AuthFailuresStrategy
  | UrgencyFinancialStrategy
  | ReplyToStrategy
  | AttachmentStrategy
  | BECRoleStrategy

fun Name :: "DetectionStrategy \<Rightarrow> string" where
  "Name DisplayNameStrategy = ''Display Name Mismatch''"
| "Name TyposquattingStrategy = ''Domain Typosquatting''"
| "Name AuthFailuresStrategy = ''Authentication Failures''"
| "Name UrgencyFinancialStrategy = ''Urgency + Financial Keywords''"
| "Name ReplyToStrategy = ''Reply-To Mismatch''"
| "Name AttachmentStrategy = ''Suspicious Attachments''"
| "Name BECRoleStrategy = ''BEC Role Targeting''"

fun Detect ::
  "(string \<Rightarrow> string) \<Rightarrow> DetectionStrategy \<Rightarrow> Email \<Rightarrow> User option \<Rightarrow> DetectionContext
     \<Rightarrow> Detection option" where
  "Detect um DisplayNameStrategy = DisplayNameStrategy_Detect um"
| "Detect um TyposquattingStrategy = TyposquattingStrategy_Detect um"
| "Detect um AuthFailuresStrategy = AuthFailuresStrategy_Detect um"
| "Detect um UrgencyFinancialStrategy = UrgencyFinancialStrategy_Detect um"
| "Detect um ReplyToStrategy = ReplyToStrategy_Detect um"
| "Detect um AttachmentStrategy = AttachmentStrategy_Detect um"
| "Detect um BECRoleStrategy = BECRoleStrategy_Detect um"

record Detector =
  strategies :: "DetectionStrategy list"
  dcontext :: DetectionContext

definition NewDetector :: "string list \<Rightarrow> string list \<Rightarrow> Detector" where
  "NewDetector internalDomains trustedDomains =
     \<lparr>strategies = [DisplayNameStrategy, TyposquattingStrategy, AuthFailuresStrategy,
                     UrgencyFinancialStrategy, ReplyToStrategy, AttachmentStrategy,
                     BECRoleStrategy],
      dcontext = NewDetectionContext internalDomains trustedDomains\<rparr>"

text \<open>
  The map literal \<^verbatim>\<open>weights\<close>; a Go map read at an absent key gives \<open>0\<close>, which
  \<open>weightOf\<close> (the first three lines of the loop body) replaces by \<open>1.0\<close>.
\<close>

definition weights :: "(string \<times> float64) list" where
  "weights =
     [(''DOMAIN_TYPOSQUATTING'', f64 (15 / 10)),
      (''DISPLAY_NAME_MISMATCH'', f64 (13 / 10)),
      (''AUTH_FAILURES'', f64 (12 / 10)),
      (''HIGH_RISK_ATTACHMENT'', f64 (15 / 10)),
      (''SUSPICIOUS_ATTACHMENT_NAME'', f64 (13 / 10)),
      (''URGENCY_FINANCIAL_LANGUAGE'', 1),
      (''REPLY_TO_MISMATCH'', f64 (11 / 10)),
      (''MEDIUM_RISK_ATTACHMENT_WITH_URGENCY'', 1),
      (''BEC_CSUITE_TARGETING'', f64 (16 / 10)),
      (''BEC_FINANCE_TARGETING'', f64 (15 / 10)),
      (''BEC_HR_W2_SCAM'', f64 (14 / 10)),
      (''BEC_HIGH_VALUE_TARGET'', f64 (12 / 10))]"

definition weightOf :: "string \<Rightarrow> float64" where
  "weightOf t =
     (let weight = (case map_of weights t of None \<Rightarrow> 0 | Some w \<Rightarrow> w)
      in if weight = 0 then 1 else weight)"

definition calculateRiskScore :: "Detection list \<Rightarrow> float64" where
  "calculateRiskScore detections =
     (if length detections = 0 then 0
      else let maxScore = fold (\<lambda>detection maxScore.
                 let score = fmul (Confidence detection) (weightOf (Type detection))
                 in if maxScore < score then score else maxScore) detections 0
           in min maxScore 1)"

definition runStrategies ::
  "(string \<Rightarrow> string) \<Rightarrow> Detector \<Rightarrow> Email \<Rightarrow> User option \<Rightarrow> Detection list" where
  "runStrategies um d email recipient =
     fold (\<lambda>strategy detections.
             case Detect um strategy email recipient (dcontext d) of
               None \<Rightarrow> detections
             | Some det \<Rightarrow> detections @ [det]) (strategies d) []"

definition AnalyzeEmail ::
  "(string \<Rightarrow> string) \<Rightarrow> Detector \<Rightarrow> Email \<Rightarrow> User option \<Rightarrow> FraudAnalysis" where
  "AnalyzeEmail um d email recipient =
     (let detections = runStrategies um d email recipient;
          riskScore = calculateRiskScore detections
      in \<lparr>EmailID = ID email, RiskScore = riskScore, RiskLevel = RiskLevelOf riskScore,
          DetectedThreats = detections\<rparr>)"

section \<open>Notions used in the statements\<close>

text \<open>
  \<open>emits r t c\<close>: the result \<open>r\<close> of a strategy is a signal of type \<open>t\<close> with
  confidence \<open>c\<close>.
\<close>

definition emits :: "Detection option \<Rightarrow> string \<Rightarrow> float64 \<Rightarrow> bool" where
  "emits r t c = (case r of None \<Rightarrow> False | Some d \<Rightarrow> Type d = t \<and> Confidence d = c)"

text \<open>
  \<open>lev_entry s1 s2 i j\<close>: the recurrence of the edit distance between the first
  \<open>i\<close> bytes of \<open>s1\<close> and the first \<open>j\<close> bytes of \<open>s2\<close>, which the comments of
  \<^verbatim>\<open>levenshteinDistance\<close> give for \<^verbatim>\<open>matrix[i][j]\<close>. The table of the source is
  compared with it below.
\<close>

fun lev_entry :: "string \<Rightarrow> string \<Rightarrow> nat \<Rightarrow> nat \<Rightarrow> nat" where
  "lev_entry s1 s2 0 j = j"
| "lev_entry s1 s2 (Suc i) 0 = Suc i"
| "lev_entry s1 s2 (Suc i) (Suc j) =
     min3 (lev_entry s1 s2 i (Suc j) + 1)
          (lev_entry s1 s2 (Suc i) j + 1)
          (lev_entry s1 s2 i j + (if s1 ! i = s2 ! j then 0 else 1))"

section \<open>Properties of the rounding\<close>

lemma powi_Suc: "(2::rat) powi (k + 1) = 2 * 2 powi k"
  by (simp add: power_int_add)

lemma powi_pos: "0 < (2::rat) powi k"
  by simp

lemma exp_up_bounds:
  "1 \<le> x \<Longrightarrow> 2 powi (exp_up x) \<le> x \<and> x < 2 powi (exp_up x + 1)"
proof (induction x rule: exp_up.induct)
  case (1 x)
  show ?case
  proof (cases "2 \<le> x")
    case True
    then have ih: "2 powi (exp_up (x / 2)) \<le> x / 2 \<and> x / 2 < 2 powi (exp_up (x / 2) + 1)"
      using "1.IH" by simp
    have e: "exp_up x = exp_up (x / 2) + 1" using True by simp
    show ?thesis using ih unfolding e powi_Suc by simp
  next
    case False
    then show ?thesis using "1.prems" by simp
  qed
qed

lemma exp_down_bounds:
  "0 < x \<Longrightarrow> x < 1 \<Longrightarrow> 2 powi (exp_down x) \<le> x \<and> x < 2 powi (exp_down x + 1)"
proof (induction x rule: exp_down.induct)
  case (1 x)
  define E where "E = exp_down (x * 2)"
  have e: "exp_down x = E - 1" using "1.prems" by (simp add: E_def)
  have p1: "(2::rat) powi E = 2 * 2 powi (E - 1)"
    using powi_Suc [of "E - 1"] by simp
  show ?case
  proof (cases "x * 2 < 1")
    case True
    then have ih: "2 powi E \<le> x * 2 \<and> x * 2 < 2 powi (E + 1)"
      using "1.IH" "1.prems" by (simp add: E_def)
    have "2 powi (E - 1) \<le> x" using ih p1 by linarith
    moreover have "x < 2 powi E" using ih powi_Suc [of E] by linarith
    ultimately show ?thesis unfolding e by simp
  next
    case False
    then have "E = 0" by (simp add: E_def)
    then show ?thesis using False "1.prems" unfolding e by simp
  qed
qed

lemma exponent_bounds:
  assumes "x \<noteq> 0"
  shows "2 powi (exponent x) \<le> \<bar>x\<bar> \<and> \<bar>x\<bar> < 2 powi (exponent x + 1)"
proof (cases "1 \<le> \<bar>x\<bar>")
  case True
  then show ?thesis using exp_up_bounds [of "\<bar>x\<bar>"] by (simp add: exponent_def)
next
  case False
  then show ?thesis using exp_down_bounds [of "\<bar>x\<bar>"] assms by (simp add: exponent_def)
qed

lemma powi_less_imp_le:
  assumes "(2::rat) powi a \<le> x" "x < 2 powi (b + 1)"
  shows "a \<le> b"
proof (rule ccontr)
  assume "\<not> a \<le> b"
  then have "b + 1 \<le> a" by simp
  then have "(2::rat) powi (b + 1) \<le> 2 powi a" by (rule power_int_increasing) simp
  then show False using assms by simp
qed

lemma exponent_unique:
  assumes "2 powi e \<le> \<bar>x\<bar>" "\<bar>x\<bar> < 2 powi (e + 1)"
  shows "exponent x = e"
proof -
  have "0 < \<bar>x\<bar>" using assms(1) powi_pos [of e] by linarith
  then have "x \<noteq> 0" by simp
  then have b: "2 powi (exponent x) \<le> \<bar>x\<bar>" "\<bar>x\<bar> < 2 powi (exponent x + 1)"
    using exponent_bounds by auto
  have "e \<le> exponent x" using assms(1) b(2) by (rule powi_less_imp_le)
  moreover have "exponent x \<le> e" using b(1) assms(2) by (rule powi_less_imp_le)
  ultimately show ?thesis by simp
qed

lemma rne_floor: "\<lfloor>q\<rfloor> \<le> rne q \<and> rne q \<le> \<lfloor>q\<rfloor> + 1"
  by (simp add: rne_def Let_def)

lemma rne_eqI:
  assumes "\<bar>q - of_int m\<bar> < 1 / 2"
  shows "rne q = m"
proof (cases "of_int m \<le> q")
  case True
  then have "\<lfloor>q\<rfloor> = m" using assms by linarith
  then show ?thesis using assms True by (simp add: rne_def Let_def)
next
  case False
  then have f: "\<lfloor>q\<rfloor> = m - 1" using assms by linarith
  have "1 / 2 < q - of_int (m - 1)" using assms False by simp
  then show ?thesis using f by (simp add: rne_def Let_def)
qed

lemma rne_tie:
  assumes "q = of_int m + 1 / 2"
  shows "rne q = (if even m then m else m + 1)"
proof -
  have "\<lfloor>q\<rfloor> = m" using assms by linarith
  then show ?thesis using assms by (simp add: rne_def Let_def)
qed

lemma rne_of_int [simp]: "rne (of_int m) = m"
  by (rule rne_eqI) simp

lemma round64_0 [simp]: "round64 0 = 0"
  by (simp add: round64_def)

lemma round64_eqI:
  assumes "2 powi e \<le> \<bar>x\<bar>" "\<bar>x\<bar> < 2 powi (e + 1)" "rne (x / 2 powi (e - 52)) = m"
  shows "round64 x = of_int m * 2 powi (e - 52)"
proof -
  have "0 < \<bar>x\<bar>" using assms(1) powi_pos [of e] by linarith
  then have "x \<noteq> 0" by simp
  moreover have "exponent x = e" using assms(1,2) by (rule exponent_unique)
  ultimately show ?thesis using assms(3) by (simp add: round64_def Let_def)
qed

lemma round64_ge_binade:
  assumes "0 < x"
  shows "2 powi (exponent x) \<le> round64 x"
proof -
  let ?e = "exponent x" and ?u = "(2::rat) powi (exponent x - 52)"
  have b: "2 powi ?e \<le> x" using exponent_bounds [of x] assms by simp
  have r: "round64 x = of_int (rne (x / ?u)) * ?u" using assms by (simp add: round64_def Let_def)
  have p: "(2::rat) powi ?e = 2 ^ 52 * ?u"
    using power_int_add [of "2::rat" 52 "?e - 52"] by simp
  have "(2::rat) ^ 52 * ?u \<le> x" using b p by simp
  then have "(2::rat) ^ 52 \<le> x / ?u" using powi_pos [of "?e - 52"] by (simp only: pos_le_divide_eq)
  then have "2 ^ 52 \<le> \<lfloor>x / ?u\<rfloor>" by (simp only: le_floor_iff of_int_power of_int_numeral)
  then have "2 ^ 52 \<le> rne (x / ?u)" using rne_floor [of "x / ?u"] by linarith
  then have "(of_int (2 ^ 52) :: rat) \<le> of_int (rne (x / ?u))" by (simp only: of_int_le_iff)
  then have "(2::rat) ^ 52 \<le> of_int (rne (x / ?u))" by (simp only: of_int_power of_int_numeral)
  then have "(2::rat) ^ 52 * ?u \<le> of_int (rne (x / ?u)) * ?u"
    using powi_pos [of "?e - 52"] by (simp only: mult_le_cancel_right_pos)
  then show ?thesis using r p by simp
qed

lemma round64_pos:
  assumes "0 < x"
  shows "0 < round64 x"
  using round64_ge_binade [OF assms] powi_pos [of "exponent x"] by linarith

lemma round64_nonneg: "0 \<le> x \<Longrightarrow> 0 \<le> round64 x"
  using round64_pos [of x] by (cases "x = 0") auto

text \<open>Rounding never falls below a representable number that is below the argument.\<close>

lemma round64_lower:
  assumes m: "2 ^ 52 \<le> m" "m < 2 ^ 53" and le: "of_int m * 2 powi (k - 52) \<le> x"
  shows "of_int m * 2 powi (k - 52) \<le> round64 x"
proof -
  let ?y = "of_int m * (2::rat) powi (k - 52)"
  have p52: "(2::rat) powi k = 2 ^ 52 * 2 powi (k - 52)"
    using power_int_add [of "2::rat" 52 "k - 52"] by simp
  have "(of_int (2 ^ 52) :: rat) \<le> of_int m" using m(1) by (simp only: of_int_le_iff)
  then have "(2::rat) ^ 52 \<le> of_int m" by (simp only: of_int_power of_int_numeral)
  then have "(2::rat) ^ 52 * 2 powi (k - 52) \<le> ?y"
    using powi_pos [of "k - 52"] by (simp only: mult_le_cancel_right_pos)
  then have ylo: "2 powi k \<le> ?y" using p52 by simp
  have "(of_int m :: rat) < of_int (2 ^ 53)" using m(2) by (simp only: of_int_less_iff)
  then have "of_int m < (2::rat) ^ 53" by (simp only: of_int_power of_int_numeral)
  then have "?y < 2 ^ 53 * 2 powi (k - 52)"
    using powi_pos [of "k - 52"] by (simp only: mult_less_cancel_right_pos)
  also have "(2::rat) ^ 53 * 2 powi (k - 52) = 2 powi (k + 1)"
    using power_int_add [of "2::rat" 53 "k - 52"] by (simp add: add.commute)
  finally have yhi: "?y < 2 powi (k + 1)" .
  have xpos: "0 < x" using le ylo powi_pos [of k] by linarith
  let ?e = "exponent x" and ?u = "(2::rat) powi (exponent x - 52)"
  have b: "2 powi ?e \<le> x" "x < 2 powi (?e + 1)" using exponent_bounds [of x] xpos by auto
  have r: "round64 x = of_int (rne (x / ?u)) * ?u" using xpos by (simp add: round64_def Let_def)
  have ke: "k \<le> ?e"
  proof (rule powi_less_imp_le)
    show "2 powi k \<le> x" using ylo le by simp
    show "x < 2 powi (?e + 1)" by (rule b(2))
  qed
  show ?thesis
  proof (cases "k = ?e")
    case True
    have "of_int m * ?u \<le> x" using le True by simp
    then have "of_int m \<le> x / ?u" using powi_pos [of "?e - 52"] by (simp only: pos_le_divide_eq)
    then have "m \<le> \<lfloor>x / ?u\<rfloor>" by (simp only: le_floor_iff)
    then have "m \<le> rne (x / ?u)" using rne_floor [of "x / ?u"] by linarith
    then have "(of_int m :: rat) \<le> of_int (rne (x / ?u))" by (simp only: of_int_le_iff)
    then have "(of_int m :: rat) * ?u \<le> of_int (rne (x / ?u)) * ?u"
      using powi_pos [of "?e - 52"] by (simp only: mult_le_cancel_right_pos)
    then show ?thesis using True r by simp
  next
    case False
    then have "k + 1 \<le> ?e" using ke by simp
    then have "(2::rat) powi (k + 1) \<le> 2 powi ?e" by (rule power_int_increasing) simp
    moreover have "2 powi ?e \<le> round64 x" using xpos by (rule round64_ge_binade)
    ultimately show ?thesis using yhi by linarith
  qed
qed

lemma round64_value:
  assumes "2 powi e \<le> \<bar>x\<bar>" "\<bar>x\<bar> < 2 powi (e + 1)"
    and "\<bar>x / 2 powi (e - 52) - of_int m\<bar> < 1 / 2"
    and "y = of_int m * 2 powi (e - 52)"
  shows "round64 x = y"
  using round64_eqI [OF assms(1,2) rne_eqI [OF assms(3)]] assms(4) by simp

subsection \<open>The constants of the source as \<^verbatim>\<open>float64\<close> values\<close>

lemma f64_pos: "0 < x \<Longrightarrow> 0 < f64 x"
  unfolding f64_def by (rule round64_pos)

lemma round64_1 [simp]: "round64 1 = 1"
  by (rule round64_value [where e = 0 and m = "2 ^ 52"]) simp_all

lemma float64_of_nat_0 [simp]: "float64_of_nat 0 = 0"
  by (simp add: float64_of_nat_def)

lemma float64_of_nat_pos: "0 < n \<Longrightarrow> 0 < float64_of_nat n"
  unfolding float64_of_nat_def by (rule round64_pos) simp

lemma f64_85_100: "f64 (85 / 100) = 7656119366529843 / 9007199254740992"
  unfolding f64_def by (rule round64_value [where e = "-1" and m = 7656119366529843]) simp_all

lemma f64_70_100: "f64 (70 / 100) = 3152519739159347 / 4503599627370496"
  unfolding f64_def by (rule round64_value [where e = "-1" and m = 6305039478318694]) simp_all

lemma f64_50_100: "f64 (50 / 100) = 1 / 2"
  unfolding f64_def by (rule round64_value [where e = "-1" and m = 4503599627370496]) simp_all

lemma f64_30_100: "f64 (30 / 100) = 5404319552844595 / 18014398509481984"
  unfolding f64_def by (rule round64_value [where e = "-2" and m = 5404319552844595]) simp_all

lemma f64_90_100: "f64 (90 / 100) = 8106479329266893 / 9007199254740992"
  unfolding f64_def by (rule round64_value [where e = "-1" and m = 8106479329266893]) simp_all

lemma f64_80_100: "f64 (80 / 100) = 3602879701896397 / 4503599627370496"
  unfolding f64_def by (rule round64_value [where e = "-1" and m = 7205759403792794]) simp_all

lemma f64_75_100: "f64 (75 / 100) = 3 / 4"
  unfolding f64_def by (rule round64_value [where e = "-1" and m = 6755399441055744]) simp_all

lemma f64_95_100: "f64 (95 / 100) = 4278419646001971 / 4503599627370496"
  unfolding f64_def by (rule round64_value [where e = "-1" and m = 8556839292003942]) simp_all

lemma f64_15_10: "f64 (15 / 10) = 3 / 2"
  unfolding f64_def by (rule round64_value [where e = "0" and m = 6755399441055744]) simp_all

lemma f64_1_10: "f64 (1 / 10) = 3602879701896397 / 36028797018963968"
  unfolding f64_def by (rule round64_value [where e = "-4" and m = 7205759403792794]) simp_all

lemma f64_3_10: "f64 (3 / 10) = 5404319552844595 / 18014398509481984"
  unfolding f64_def by (rule round64_value [where e = "-2" and m = 5404319552844595]) simp_all

lemma f64_5_10: "f64 (5 / 10) = 1 / 2"
  unfolding f64_def by (rule round64_value [where e = "-1" and m = 4503599627370496]) simp_all

lemma f64_2_10: "f64 (2 / 10) = 3602879701896397 / 18014398509481984"
  unfolding f64_def by (rule round64_value [where e = "-3" and m = 7205759403792794]) simp_all

lemma f64_13_10: "f64 (13 / 10) = 5854679515581645 / 4503599627370496"
  unfolding f64_def by (rule round64_value [where e = "0" and m = 5854679515581645]) simp_all

lemma f64_12_10: "f64 (12 / 10) = 5404319552844595 / 4503599627370496"
  unfolding f64_def by (rule round64_value [where e = "0" and m = 5404319552844595]) simp_all

lemma f64_11_10: "f64 (11 / 10) = 2476979795053773 / 2251799813685248"
  unfolding f64_def by (rule round64_value [where e = "0" and m = 4953959590107546]) simp_all

lemma f64_16_10: "f64 (16 / 10) = 3602879701896397 / 2251799813685248"
  unfolding f64_def by (rule round64_value [where e = "0" and m = 7205759403792794]) simp_all

lemma f64_14_10: "f64 (14 / 10) = 3152519739159347 / 2251799813685248"
  unfolding f64_def by (rule round64_value [where e = "0" and m = 6305039478318694]) simp_all

subsection \<open>Rounded values of the examples\<close>

lemma round64_tie:
  assumes "2 powi e \<le> \<bar>x\<bar>" "\<bar>x\<bar> < 2 powi (e + 1)"
    and "x / 2 powi (e - 52) = of_int n + 1 / 2"
    and "y = of_int (if even n then n else n + 1) * 2 powi (e - 52)"
  shows "round64 x = y"
  using round64_eqI [OF assms(1,2) rne_tie [OF assms(3)]] assms(4) by simp

lemma round64_13: "round64 (13) = 13"
  by (rule round64_value [where e = "3" and m = 7318349394477056]) simp_all

lemma round64_1_13: "round64 (1 / 13) = 1385722962267845 / 18014398509481984"
  by (rule round64_value [where e = "-4" and m = 5542891849071380]) simp_all

lemma round64_sub_1_13: "round64 (16628675547214139 / 18014398509481984) = 4157168886803535 / 4503599627370496"
  by (rule round64_tie [where e = "-1" and n = 8314337773607069]) simp_all

lemma round64_mul_100: "round64 (103929222170088375 / 1125899906842624) = 6495576385630523 / 70368744177664"
  by (rule round64_value [where e = "6" and m = 6495576385630523]) simp_all

lemma round64_0_3: "round64 (5404319552844595 / 18014398509481984) = 5404319552844595 / 18014398509481984"
  by (rule round64_value [where e = "-2" and m = 5404319552844595]) simp_all

lemma round64_6: "round64 (6) = 6"
  by (rule round64_value [where e = "2" and m = 6755399441055744]) simp_all

lemma round64_6_0_2: "round64 (10808639105689191 / 9007199254740992) = 1351079888211149 / 1125899906842624"
  by (rule round64_tie [where e = "0" and n = 5404319552844595]) simp_all

lemma round64_score_1_0_6: "round64 (27021597764222979 / 18014398509481984) = 6755399441055745 / 4503599627370496"
  by (rule round64_value [where e = "0" and m = 6755399441055745]) simp_all

lemma round64_excess: "round64 (1 / 4503599627370496) = 1 / 4503599627370496"
  by (rule round64_value [where e = "-52" and m = 4503599627370496]) simp_all

lemma round64_increment: "round64 (3602879701896397 / 162259276829213363391578010288128) = 3602879701896397 / 162259276829213363391578010288128"
  by (rule round64_value [where e = "-56" and m = 7205759403792794]) simp_all

lemma round64_confidence: "round64 (113581493780449350771224905305293 / 162259276829213363391578010288128) = 3152519739159347 / 4503599627370496"
  by (rule round64_value [where e = "-1" and m = 6305039478318694]) simp_all

section \<open>The authentication-failures strategy\<close>

text \<open>
  Claim C9. The authentication-failures strategy emits a signal, of type
  \<^verbatim>\<open>AUTH_FAILURES\<close> and confidence \<^verbatim>\<open>0.80\<close>, if and only if at least two of the
  three checks fail: the lower-cased \<^verbatim>\<open>Received-SPF\<close> value contains \<^verbatim>\<open>fail\<close>,
  the lower-cased \<^verbatim>\<open>Authentication-Results\<close> value contains \<^verbatim>\<open>dkim=fail\<close>, and
  it contains \<^verbatim>\<open>dmarc=fail\<close>. An absent header fails no check, so with one failure
  or with both headers absent there is no signal.
\<close>

theorem AuthFailuresStrategy_two_of_three:
  "(let spf = (case Headers email ''Received-SPF'' of
                 None \<Rightarrow> False | Some v \<Rightarrow> Contains (ToLower um v) ''fail'');
        dkim = (case Headers email ''Authentication-Results'' of
                  None \<Rightarrow> False | Some v \<Rightarrow> Contains (ToLower um v) ''dkim=fail'');
        dmarc = (case Headers email ''Authentication-Results'' of
                   None \<Rightarrow> False | Some v \<Rightarrow> Contains (ToLower um v) ''dmarc=fail'');
        failed = length (filter id [spf, dkim, dmarc])
    in case AuthFailuresStrategy_Detect um email recipient ctx of
         None \<Rightarrow> failed < 2
       | Some d \<Rightarrow> 2 \<le> failed \<and> Type d = ''AUTH_FAILURES'' \<and> Confidence d = f64 (80 / 100))"
  by (simp add: AuthFailuresStrategy_Detect_def AuthFailuresStrategy_failures_def Let_def
           split: option.split)

theorem AuthFailuresStrategy_two_of_three_witness:
  "emits (AuthFailuresStrategy_Detect id
            \<lparr>ID = [], Subject = [], SenderEmail = [], SenderName = [], RecipientEmail = [],
             HasAttachments = False, AttachmentNames = [], BodyPreview = [],
             Headers = [''Received-SPF'' \<mapsto> ''Fail (sender not permitted)'',
                        ''Authentication-Results'' \<mapsto> ''mx.example.com; dkim=FAIL; dmarc=pass'']\<rparr>
            None \<lparr>InternalDomains = [], TrustedDomains = []\<rparr>)
     ''AUTH_FAILURES'' (f64 (80 / 100)) \<and>
   AuthFailuresStrategy_Detect id
     \<lparr>ID = [], Subject = [], SenderEmail = [], SenderName = [], RecipientEmail = [],
      HasAttachments = False, AttachmentNames = [], BodyPreview = [],
      Headers = [''Received-SPF'' \<mapsto> ''fail'']\<rparr>
     None \<lparr>InternalDomains = [], TrustedDomains = []\<rparr> = None"
proof -
  let ?two = "\<lparr>ID = [], Subject = [], SenderEmail = [], SenderName = [], RecipientEmail = [],
             HasAttachments = False, AttachmentNames = [], BodyPreview = [],
             Headers = [''Received-SPF'' \<mapsto> ''Fail (sender not permitted)'',
                        ''Authentication-Results'' \<mapsto> ''mx.example.com; dkim=FAIL; dmarc=pass'']\<rparr>"
  let ?one = "\<lparr>ID = [], Subject = [], SenderEmail = [], SenderName = [], RecipientEmail = [],
      HasAttachments = False, AttachmentNames = [], BodyPreview = [],
      Headers = [''Received-SPF'' \<mapsto> ''fail'']\<rparr>"
  let ?c = "\<lparr>InternalDomains = [], TrustedDomains = []\<rparr>"
  have k: "Contains (ToLower id ''Fail (sender not permitted)'') ''fail''"
    "Contains (ToLower id ''mx.example.com; dkim=FAIL; dmarc=pass'') ''dkim=fail''"
    "\<not> Contains (ToLower id ''mx.example.com; dkim=FAIL; dmarc=pass'') ''dmarc=fail''"
    "Contains (ToLower id ''fail'') ''fail''"
    by code_simp+
  have two: "emits (AuthFailuresStrategy_Detect id ?two None ?c) ''AUTH_FAILURES'' (f64 (80 / 100))"
    using AuthFailuresStrategy_two_of_three [where um = id and email = ?two and recipient = None
        and ctx = ?c] k
    by (simp add: Let_def emits_def split: option.splits)
  have one: "AuthFailuresStrategy_Detect id ?one None ?c = None"
    using AuthFailuresStrategy_two_of_three [where um = id and email = ?one and recipient = None
        and ctx = ?c] k
    by (simp add: Let_def split: option.splits)
  show ?thesis using two one by (rule conjI)
qed

section \<open>The attachment strategy\<close>

lemma attachment_loop_find:
  "attachment_loop um email names =
     (case List.find (\<lambda>name. attachment_check um email name \<noteq> None) names of
        None \<Rightarrow> None
      | Some name \<Rightarrow> attachment_check um email name)"
  by (induction names) (auto split: option.split)

text \<open>
  Claim C8. Without the flag \<^verbatim>\<open>HasAttachments\<close> the attachment strategy returns no
  signal. Otherwise the signal comes from the first attachment name, in the given
  order, that triggers a rule, whatever follows it in the list: a high-risk extension
  gives \<^verbatim>\<open>HIGH_RISK_ATTACHMENT\<close> at \<^verbatim>\<open>0.90\<close>; else more than one \<^verbatim>\<open>'.'\<close> gives
  \<^verbatim>\<open>SUSPICIOUS_ATTACHMENT_NAME\<close> at \<^verbatim>\<open>0.85\<close>; else a medium-risk extension
  together with an urgency keyword in subject and body gives
  \<^verbatim>\<open>MEDIUM_RISK_ATTACHMENT_WITH_URGENCY\<close> at \<^verbatim>\<open>0.70\<close>. When no name triggers a rule
  there is no signal.
\<close>

theorem AttachmentStrategy_first_match:
  "(let r = AttachmentStrategy_Detect um email recipient ctx;
        highRisk = (\<lambda>name. list_ex (HasSuffix (ToLower um name)) highRiskExtensions);
        doubleExtension = (\<lambda>name. 1 < Count (ToLower um name) (CHR ''.''));
        mediumRisk = (\<lambda>name. list_ex (HasSuffix (ToLower um name)) mediumRiskExtensions \<and>
           containsAny (ToLower um (Subject email @ '' '' @ BodyPreview email))
             [''urgent'', ''immediately'', ''asap'', ''right away'', ''today''])
    in if \<not> HasAttachments email then r = None
       else case List.find (\<lambda>name. highRisk name \<or> doubleExtension name \<or> mediumRisk name)
                   (AttachmentNames email) of
              None \<Rightarrow> r = None
            | Some name \<Rightarrow>
                if highRisk name
                then r = Some \<lparr>Type = ''HIGH_RISK_ATTACHMENT'', Confidence = f64 (90 / 100),
                                Evidence = ''High-risk attachment type: '' @ name\<rparr>
                else if doubleExtension name
                then r = Some \<lparr>Type = ''SUSPICIOUS_ATTACHMENT_NAME'', Confidence = f64 (85 / 100),
                                Evidence = ''Suspicious attachment name (double extension): '' @ name\<rparr>
                else r = Some \<lparr>Type = ''MEDIUM_RISK_ATTACHMENT_WITH_URGENCY'',
                                Confidence = f64 (70 / 100),
                                Evidence = ''Medium-risk attachment + urgent language: '' @ name\<rparr>)"
proof -
  let ?U = "containsAny (ToLower um (Subject email @ '' '' @ BodyPreview email))
             [''urgent'', ''immediately'', ''asap'', ''right away'', ''today'']"
  let ?highRisk = "\<lambda>name. list_ex (HasSuffix (ToLower um name)) highRiskExtensions"
  let ?doubleExtension = "\<lambda>name. 1 < Count (ToLower um name) (CHR ''.'')"
  let ?mediumRisk = "\<lambda>name. list_ex (HasSuffix (ToLower um name)) mediumRiskExtensions \<and> ?U"
  let ?trigger = "\<lambda>name. ?highRisk name \<or> ?doubleExtension name \<or> ?mediumRisk name"
  have u: "hasUrgencyLanguage um email = ?U"
    by (simp only: hasUrgencyLanguage_def Let_def)
  have m: "list_ex (\<lambda>ext. HasSuffix f ext \<and> hasUrgencyLanguage um email) mediumRiskExtensions
             = (list_ex (HasSuffix f) mediumRiskExtensions \<and> ?U)" for f
    unfolding u by (auto simp only: list_ex_iff)
  have chk: "attachment_check um email name =
      (if ?highRisk name
       then Some \<lparr>Type = ''HIGH_RISK_ATTACHMENT'', Confidence = f64 (90 / 100),
                  Evidence = ''High-risk attachment type: '' @ name\<rparr>
       else if ?doubleExtension name
       then Some \<lparr>Type = ''SUSPICIOUS_ATTACHMENT_NAME'', Confidence = f64 (85 / 100),
                  Evidence = ''Suspicious attachment name (double extension): '' @ name\<rparr>
       else if ?mediumRisk name
       then Some \<lparr>Type = ''MEDIUM_RISK_ATTACHMENT_WITH_URGENCY'', Confidence = f64 (70 / 100),
                  Evidence = ''Medium-risk attachment + urgent language: '' @ name\<rparr>
       else None)" for name
    unfolding attachment_check_def Let_def m ..
  have trig: "(attachment_check um email name \<noteq> None) = ?trigger name" for name
    unfolding chk by (auto simp del: containsAny.simps)
  have res: "?trigger name \<Longrightarrow>
        (if ?highRisk name
         then attachment_check um email name =
           Some \<lparr>Type = ''HIGH_RISK_ATTACHMENT'', Confidence = f64 (90 / 100),
                  Evidence = ''High-risk attachment type: '' @ name\<rparr>
         else if ?doubleExtension name
         then attachment_check um email name =
           Some \<lparr>Type = ''SUSPICIOUS_ATTACHMENT_NAME'', Confidence = f64 (85 / 100),
                  Evidence = ''Suspicious attachment name (double extension): '' @ name\<rparr>
         else attachment_check um email name =
           Some \<lparr>Type = ''MEDIUM_RISK_ATTACHMENT_WITH_URGENCY'', Confidence = f64 (70 / 100),
                  Evidence = ''Medium-risk attachment + urgent language: '' @ name\<rparr>)" for name
    unfolding chk by (auto simp del: containsAny.simps)
  have loop: "attachment_loop um email names =
     (case List.find ?trigger names of
        None \<Rightarrow> None | Some name \<Rightarrow> attachment_check um email name)" for names
    by (simp only: attachment_loop_find trig)
  show ?thesis
  proof (cases "HasAttachments email")
    case False
    then show ?thesis by (simp add: AttachmentStrategy_Detect_def Let_def)
  next
    case True
    then have d: "AttachmentStrategy_Detect um email recipient ctx =
      (case List.find ?trigger (AttachmentNames email) of
        None \<Rightarrow> None | Some name \<Rightarrow> attachment_check um email name)"
      by (simp only: AttachmentStrategy_Detect_def loop not_True_eq_False if_False)
    show ?thesis
    proof (cases "List.find ?trigger (AttachmentNames email)")
      case None
      then show ?thesis using True unfolding Let_def d
        by (simp only: option.case if_False not_True_eq_False)
    next
      case (Some name)
      then have "?trigger name" unfolding find_Some_iff by blast
      from res [OF this] show ?thesis using True Some unfolding Let_def d
        by (simp only: option.case if_False not_True_eq_False)
    qed
  qed
qed

theorem AttachmentStrategy_first_match_witness:
  "AttachmentStrategy_Detect id
     \<lparr>ID = [], Subject = [], SenderEmail = [], SenderName = [], RecipientEmail = [],
      HasAttachments = True,
      AttachmentNames = [''report.pdf'', ''Invoice.PDF.exe'', ''budget.v2.docm''],
      BodyPreview = [], Headers = Map.empty\<rparr>
     None \<lparr>InternalDomains = [], TrustedDomains = []\<rparr>
   = Some \<lparr>Type = ''HIGH_RISK_ATTACHMENT'', Confidence = f64 (90 / 100),
            Evidence = ''High-risk attachment type: Invoice.PDF.exe''\<rparr>"
proof -
  let ?email = "\<lparr>ID = [], Subject = [], SenderEmail = [], SenderName = [], RecipientEmail = [],
      HasAttachments = True,
      AttachmentNames = [''report.pdf'', ''Invoice.PDF.exe'', ''budget.v2.docm''],
      BodyPreview = [], Headers = Map.empty\<rparr>"
  have l: "ToLower id ''report.pdf'' = ''report.pdf''"
    "ToLower id ''Invoice.PDF.exe'' = ''invoice.pdf.exe''"
    by code_simp+
  have a: "list_ex (HasSuffix ''report.pdf'') highRiskExtensions = False"
    "Count ''report.pdf'' (CHR ''.'') = 1"
    "list_ex (HasSuffix ''report.pdf'') mediumRiskExtensions = False"
    "list_ex (HasSuffix ''invoice.pdf.exe'') highRiskExtensions = True"
    by code_simp+
  show ?thesis
    using AttachmentStrategy_first_match [where um = id and email = ?email and recipient = None
        and ctx = "\<lparr>InternalDomains = [], TrustedDomains = []\<rparr>"]
    by (simp add: Let_def l a)
qed

section \<open>The BEC role-targeting strategy\<close>

text \<open>
  Claim C4. The BEC strategy abstains when the recipient is absent or has an empty
  role, and when the sender's domain is internal. Otherwise the first rule that matches
  decides: C-suite role with urgency and wire-transfer language,
  \<^verbatim>\<open>BEC_CSUITE_TARGETING\<close> at \<^verbatim>\<open>0.90\<close>; finance role with wire-transfer language,
  \<^verbatim>\<open>BEC_FINANCE_TARGETING\<close> at \<^verbatim>\<open>0.85\<close>; HR role with payroll-document language,
  \<^verbatim>\<open>BEC_HR_PAYROLL_SCAM\<close> at \<^verbatim>\<open>0.80\<close>; any of the three roles with urgency
  language, \<^verbatim>\<open>BEC_HIGH_VALUE_TARGET\<close> at \<^verbatim>\<open>0.70\<close>; otherwise no signal.
\<close>

theorem BECRoleStrategy_cascade:
  "(let r = BECRoleStrategy_Detect um email recipient ctx
    in case recipient of
         None \<Rightarrow> r = None
       | Some rcpt \<Rightarrow>
          let role = ToLower um (Role rcpt);
              text = ToLower um (Subject email @ '' '' @ BodyPreview email);
              isCsuite = containsAny role cSuiteRoles;
              isFinance = containsAny role financeRoles;
              isHR = containsAny role hrRoles;
              hasUrgency = containsAny text bec_urgencyKeywords;
              hasWireTransfer = containsAny text wireTransferKeywords;
              hasPayrollDoc = containsAny text payrollDocKeywords
          in if Role rcpt = [] then r = None
             else if isInternalDomain (extractDomain um (SenderEmail email))
                       (InternalDomains ctx) then r = None
             else if isCsuite \<and> hasUrgency \<and> hasWireTransfer
             then emits r ''BEC_CSUITE_TARGETING'' (f64 (90 / 100))
             else if isFinance \<and> hasWireTransfer
             then emits r ''BEC_FINANCE_TARGETING'' (f64 (85 / 100))
             else if isHR \<and> hasPayrollDoc
             then emits r ''BEC_HR_PAYROLL_SCAM'' (f64 (80 / 100))
             else if (isCsuite \<or> isFinance \<or> isHR) \<and> hasUrgency
             then emits r ''BEC_HIGH_VALUE_TARGET'' (f64 (70 / 100))
             else r = None)"
proof (cases recipient)
  case None
  then show ?thesis by (simp add: BECRoleStrategy_Detect_def)
next
  case (Some rcpt)
  define C where "C = containsAny (ToLower um (Role rcpt)) cSuiteRoles"
  define F where "F = containsAny (ToLower um (Role rcpt)) financeRoles"
  define H where "H = containsAny (ToLower um (Role rcpt)) hrRoles"
  define U where "U = containsAny (ToLower um (Subject email @ '' '' @ BodyPreview email))
                        bec_urgencyKeywords"
  define W where "W = containsAny (ToLower um (Subject email @ '' '' @ BodyPreview email))
                        wireTransferKeywords"
  define P where "P = containsAny (ToLower um (Subject email @ '' '' @ BodyPreview email))
                        payrollDocKeywords"
  define I where "I = isInternalDomain (extractDomain um (SenderEmail email))
                        (InternalDomains ctx)"
  define E where "E = (Role rcpt = [])"
  define r where "r = BECRoleStrategy_Detect um email recipient ctx"
  have d: "r =
    (if E then None else if \<not> \<not> I then None else if \<not> C \<and> \<not> F \<and> \<not> H then None
     else if C \<and> U \<and> W
     then Some \<lparr>Type = ''BEC_CSUITE_TARGETING'', Confidence = f64 (90 / 100),
       Evidence = ''Executive recipient ('' @ Role rcpt @
         '') + external sender + urgent wire transfer request (potential CEO fraud/Fraude au pr'' @
         e_acute @ ''sident)''\<rparr>
     else if F \<and> W
     then Some \<lparr>Type = ''BEC_FINANCE_TARGETING'', Confidence = f64 (85 / 100),
       Evidence = ''Finance role ('' @ Role rcpt @
         '') + external sender + payment/wire transfer language (potential invoice fraud)''\<rparr>
     else if H \<and> P
     then Some \<lparr>Type = ''BEC_HR_PAYROLL_SCAM'', Confidence = f64 (80 / 100),
       Evidence = ''HR role ('' @ Role rcpt @
         '') + external sender + payroll/tax document request (W-2/bulletin de paie phishing)''\<rparr>
     else if (C \<or> F \<or> H) \<and> U
     then Some \<lparr>Type = ''BEC_HIGH_VALUE_TARGET'', Confidence = f64 (70 / 100),
       Evidence = ''High-value role ('' @ Role rcpt @
         '') + external sender + urgent language''\<rparr>
     else None)"
    unfolding r_def Some BECRoleStrategy_Detect_def Let_def option.case
      C_def F_def H_def U_def W_def P_def I_def E_def ..
  have "if E then r = None
        else if I then r = None
        else if C \<and> U \<and> W then emits r ''BEC_CSUITE_TARGETING'' (f64 (90 / 100))
        else if F \<and> W then emits r ''BEC_FINANCE_TARGETING'' (f64 (85 / 100))
        else if H \<and> P then emits r ''BEC_HR_PAYROLL_SCAM'' (f64 (80 / 100))
        else if (C \<or> F \<or> H) \<and> U then emits r ''BEC_HIGH_VALUE_TARGET'' (f64 (70 / 100))
        else r = None"
  proof (cases "E \<or> I")
    case True
    then show ?thesis unfolding d by auto
  next
    case False
    then have "\<not> E" "\<not> I" by simp_all
    then show ?thesis unfolding d emits_def
      by (cases C; cases F; cases H; cases U; cases W; cases P) simp_all
  qed
  then show ?thesis
    unfolding Some Let_def option.case r_def C_def F_def H_def U_def W_def P_def I_def E_def .
qed

theorem BECRoleStrategy_cascade_witness:
  "emits (BECRoleStrategy_Detect id
            \<lparr>ID = [], Subject = ''URGENT: Wire Transfer Required'',
             SenderEmail = ''attacker@evil.com'', SenderName = [], RecipientEmail = [],
             HasAttachments = False, AttachmentNames = [],
             BodyPreview = ''Please process this wire transfer immediately to our new bank account'',
             Headers = Map.empty\<rparr>
            (Some \<lparr>UserEmail = ''ceo@company.com'', DisplayName = [], Role = ''CEO''\<rparr>)
            \<lparr>InternalDomains = [''company.com''], TrustedDomains = []\<rparr>)
     ''BEC_CSUITE_TARGETING'' (f64 (90 / 100)) \<and>
   BECRoleStrategy_Detect id
     \<lparr>ID = [], Subject = ''URGENT: Wire Transfer Required'',
      SenderEmail = ''colleague@company.com'', SenderName = [], RecipientEmail = [],
      HasAttachments = False, AttachmentNames = [],
      BodyPreview = ''Please process this wire transfer immediately to our new bank account'',
      Headers = Map.empty\<rparr>
     (Some \<lparr>UserEmail = ''ceo@company.com'', DisplayName = [], Role = ''CEO''\<rparr>)
     \<lparr>InternalDomains = [''company.com''], TrustedDomains = []\<rparr> = None \<and>
   BECRoleStrategy_Detect id
     \<lparr>ID = [], Subject = ''URGENT: Wire Transfer Required'',
      SenderEmail = ''attacker@evil.com'', SenderName = [], RecipientEmail = [],
      HasAttachments = False, AttachmentNames = [],
      BodyPreview = ''Please process this wire transfer immediately to our new bank account'',
      Headers = Map.empty\<rparr>
     None \<lparr>InternalDomains = [''company.com''], TrustedDomains = []\<rparr> = None"
proof -
  let ?ext = "\<lparr>ID = [], Subject = ''URGENT: Wire Transfer Required'',
             SenderEmail = ''attacker@evil.com'', SenderName = [], RecipientEmail = [],
             HasAttachments = False, AttachmentNames = [],
             BodyPreview = ''Please process this wire transfer immediately to our new bank account'',
             Headers = Map.empty\<rparr>"
  let ?int = "\<lparr>ID = [], Subject = ''URGENT: Wire Transfer Required'',
      SenderEmail = ''colleague@company.com'', SenderName = [], RecipientEmail = [],
      HasAttachments = False, AttachmentNames = [],
      BodyPreview = ''Please process this wire transfer immediately to our new bank account'',
      Headers = Map.empty\<rparr>"
  let ?ceo = "\<lparr>UserEmail = ''ceo@company.com'', DisplayName = [], Role = ''CEO''\<rparr>"
  let ?c = "\<lparr>InternalDomains = [''company.com''], TrustedDomains = []\<rparr>"
  have k: "\<not> isInternalDomain (extractDomain id ''attacker@evil.com'') [''company.com'']"
    "isInternalDomain (extractDomain id ''colleague@company.com'') [''company.com'']"
    "containsAny (ToLower id ''CEO'') cSuiteRoles"
    "containsAny (ToLower id (''URGENT: Wire Transfer Required'' @ '' '' @
       ''Please process this wire transfer immediately to our new bank account''))
       bec_urgencyKeywords"
    "containsAny (ToLower id (''URGENT: Wire Transfer Required'' @ '' '' @
       ''Please process this wire transfer immediately to our new bank account''))
       wireTransferKeywords"
    by code_simp+
  have ext: "emits (BECRoleStrategy_Detect id ?ext (Some ?ceo) ?c)
               ''BEC_CSUITE_TARGETING'' (f64 (90 / 100))"
    using BECRoleStrategy_cascade [where um = id and email = ?ext and recipient = "Some ?ceo"
        and ctx = ?c] k
    by (simp add: Let_def)
  have int: "BECRoleStrategy_Detect id ?int (Some ?ceo) ?c = None"
    using BECRoleStrategy_cascade [where um = id and email = ?int and recipient = "Some ?ceo"
        and ctx = ?c] k
    by (simp add: Let_def)
  have none: "BECRoleStrategy_Detect id ?ext None ?c = None"
    using BECRoleStrategy_cascade [where um = id and email = ?ext and recipient = None
        and ctx = ?c]
    by (simp add: Let_def)
  show ?thesis using ext int none by (intro conjI)
qed

section \<open>The aggregate risk score\<close>

lemma fold_max_score:
  "fold (\<lambda>detection maxScore. let score = s detection
                              in if maxScore < score then score else maxScore) ds a
     = Max (insert a (s ` set ds))"
proof (induction ds arbitrary: a)
  case Nil
  show ?case by simp
next
  case (Cons d ds)
  have step: "(let score = s d in if a < score then score else a) = max a (s d)"
    by (auto simp: Let_def max_def)
  have "Max (insert (max a (s d)) (s ` set ds)) = Max (insert a (insert (s d) (s ` set ds)))"
  proof (cases "set ds = {}")
    case True
    then show ?thesis by simp
  next
    case False
    then show ?thesis by (simp add: max.assoc)
  qed
  then show ?case using Cons.IH [of "max a (s d)"]
    by (simp only: fold_simps step list.set image_insert)
qed

lemma weights_positive: "map_of weights t = Some w \<Longrightarrow> 0 < w"
  by (auto simp: weights_def f64_pos split: if_splits)

lemma weightOf_table:
  "weightOf t = (case map_of weights t of None \<Rightarrow> 1 | Some w \<Rightarrow> w)"
  using weights_positive [of t]
  by (auto simp: weightOf_def Let_def split: option.split)

lemma weightOf_positive: "0 < weightOf t"
  using weights_positive [of t] by (simp add: weightOf_table split: option.split)

lemma calculateRiskScore_general:
  "calculateRiskScore ds =
     (if ds = [] then 0
      else min (Max (insert 0 ((\<lambda>d. fmul (Confidence d) (weightOf (Type d))) ` set ds))) 1)"
  by (simp add: calculateRiskScore_def fold_max_score)

text \<open>
  Claim C1. The aggregate risk score of the empty list of signals is \<open>0.0\<close>. The
  score of a non-empty list of signals, whose confidences are not negative as the data
  model has them (\<^verbatim>\<open>Confidence float64 // 0.0 to 1.0\<close>), is the largest product
  \<^verbatim>\<open>confidence * weight\<close> over the signals, capped at \<open>1.0\<close>; the weight of a type
  is its entry in the table \<^verbatim>\<open>weights\<close>, and \<open>1.0\<close> for a type that is not a key
  of the table. Without the condition on the confidences the loop's initial
  \<^verbatim>\<open>maxScore := 0.0\<close> is part of the maximum (\<open>calculateRiskScore_general\<close>).
\<close>

theorem calculateRiskScore_weighted_max:
  assumes "\<forall>d \<in> set ds. 0 \<le> Confidence d"
  shows "calculateRiskScore ds =
     (if ds = [] then 0
      else min 1 (Max ((\<lambda>d. fmul (Confidence d)
                         (case map_of weights (Type d) of None \<Rightarrow> 1 | Some w \<Rightarrow> w)) ` set ds)))"
proof (cases "ds = []")
  case True
  then show ?thesis by (simp add: calculateRiskScore_def)
next
  case False
  let ?s = "\<lambda>d. fmul (Confidence d) (weightOf (Type d))"
  let ?S = "?s ` set ds"
  have fin: "finite ?S" and ne: "?S \<noteq> {}" using False by auto
  have "0 \<le> ?s d" if "d \<in> set ds" for d
  proof -
    have "0 \<le> Confidence d * weightOf (Type d)"
      using assms that weightOf_positive [of "Type d"] by simp
    then show ?thesis unfolding fmul_def by (rule round64_nonneg)
  qed
  then have "\<forall>x \<in> ?S. 0 \<le> x" by auto
  then have "0 \<le> Max ?S" using fin ne by (meson Max_in)
  then have "Max (insert 0 ?S) = Max ?S" using fin ne by (simp add: max_def)
  then show ?thesis using False
    by (simp add: calculateRiskScore_general weightOf_table min.commute)
qed

theorem calculateRiskScore_weighted_max_witness:
  "0 \<le> f64 (70 / 100) \<and> 0 \<le> f64 (75 / 100) \<and>
   calculateRiskScore
     [\<lparr>Type = ''URGENCY_FINANCIAL_LANGUAGE'', Confidence = f64 (70 / 100), Evidence = []\<rparr>,
      \<lparr>Type = ''REPLY_TO_MISMATCH'', Confidence = f64 (75 / 100), Evidence = []\<rparr>]
     = min 1 (Max {fmul (f64 (70 / 100)) 1, fmul (f64 (75 / 100)) (f64 (11 / 10))})"
proof -
  let ?ds = "[\<lparr>Type = ''URGENCY_FINANCIAL_LANGUAGE'', Confidence = f64 (70 / 100), Evidence = []\<rparr>,
              \<lparr>Type = ''REPLY_TO_MISMATCH'', Confidence = f64 (75 / 100), Evidence = []\<rparr>]"
  have p: "0 \<le> f64 (70 / 100)" "0 \<le> f64 (75 / 100)"
    using f64_pos [of "70 / 100"] f64_pos [of "75 / 100"] by simp_all
  then have h: "\<forall>d \<in> set ?ds. 0 \<le> Confidence d" by simp
  show ?thesis using p calculateRiskScore_weighted_max [OF h] by (simp add: weights_def)
qed

lemma calculateRiskScore_range: "0 \<le> calculateRiskScore ds \<and> calculateRiskScore ds \<le> 1"
proof (cases "ds = []")
  case True
  then show ?thesis by (simp add: calculateRiskScore_def)
next
  case False
  have "0 \<le> Max (insert 0 ((\<lambda>d. fmul (Confidence d) (weightOf (Type d))) ` set ds))"
    by (rule Max_ge) simp_all
  then show ?thesis using False by (simp add: calculateRiskScore_general)
qed

text \<open>
  Claim C2. For every detector, message and optional recipient, the risk score of the
  analysis lies between \<open>0.0\<close> and \<open>1.0\<close>, and the risk level is the threshold function
  of the score: \<open>critical\<close> from \<open>0.85\<close>, \<open>high\<close> from \<open>0.70\<close>, \<open>medium\<close>
  from \<open>0.50\<close>, \<open>low\<close> from \<open>0.30\<close>, \<open>none\<close> below.
\<close>

theorem AnalyzeEmail_score_and_level:
  "(let a = AnalyzeEmail um d email recipient; score = RiskScore a
    in 0 \<le> score \<and> score \<le> 1 \<and>
       RiskLevel a =
         (if f64 (85 / 100) \<le> score then ''critical''
          else if f64 (70 / 100) \<le> score then ''high''
          else if f64 (50 / 100) \<le> score then ''medium''
          else if f64 (30 / 100) \<le> score then ''low''
          else ''none''))"
  using calculateRiskScore_range [of "runStrategies um d email recipient"]
  by (simp add: AnalyzeEmail_def Let_def RiskLevelOf_def)

section \<open>Degenerate input\<close>

lemma Split_no_separator: "sep \<notin> set s \<Longrightarrow> Split s sep = [s]"
  by (induction s) auto

lemma ToLower_Nil [simp]: "ToLower um [] = []"
  by (simp add: ToLower_def)

lemma ToLower_space [simp]: "ToLower um '' '' = '' ''"
  by (simp add: ToLower_def isASCII_def lowerASCII_def)

lemma similarity_Nil:
  assumes "t \<noteq> []"
  shows "similarity [] t = 0"
proof -
  have "0 < float64_of_nat (length t)" using assms by (simp add: float64_of_nat_pos)
  then have "fdiv (float64_of_nat (length t)) (float64_of_nat (length t)) = 1"
    by (simp add: fdiv_def)
  then show ?thesis
    by (simp add: similarity_def levenshteinDistance_def Let_def fsub_def fmul_def)
qed

lemma typosquatting_loop_Nil: "typosquatting_loop [] trustedDomains = None"
  by (induction trustedDomains) (simp_all add: similarity_Nil)

lemma uf_score_0: "uf_score 0 0 0 = 0"
  by (simp add: uf_score_def fmul_def fadd_def)

lemma RiskLevelOf_0: "RiskLevelOf 0 = ''none''"
  using f64_pos [of "85 / 100"] f64_pos [of "70 / 100"] f64_pos [of "50 / 100"]
    f64_pos [of "30 / 100"]
  by (simp add: RiskLevelOf_def)

lemma calculateRiskScore_Nil: "calculateRiskScore [] = 0"
  by (simp add: calculateRiskScore_def)

text \<open>
  Claim C10. For the message whose fields are all empty and an absent recipient, every
  one of the seven strategies of the detector abstains, whatever the internal and
  trusted domains are, and the analysis has score \<open>0.0\<close>, level \<open>none\<close> and no
  signal. The domain extracted from an address without \<^verbatim>\<open>'@'\<close> is the empty string.
\<close>

theorem AnalyzeEmail_empty_message:
  "(let email = \<lparr>ID = i, Subject = [], SenderEmail = [], SenderName = [], RecipientEmail = [],
                   HasAttachments = False, AttachmentNames = [], BodyPreview = [],
                   Headers = Map.empty\<rparr>;
        d = NewDetector internalDomains trustedDomains
    in list_all (\<lambda>strategy. Detect um strategy email None (dcontext d) = None) (strategies d) \<and>
       AnalyzeEmail um d email None =
         \<lparr>EmailID = i, RiskScore = 0, RiskLevel = ''none'', DetectedThreats = []\<rparr>) \<and>
   (CHR ''@'' \<notin> set address \<longrightarrow> extractDomain um address = [])"
proof -
  let ?email = "\<lparr>ID = i, Subject = [], SenderEmail = [], SenderName = [], RecipientEmail = [],
                   HasAttachments = False, AttachmentNames = [], BodyPreview = [],
                   Headers = Map.empty\<rparr>"
  let ?c = "NewDetectionContext internalDomains trustedDomains"
  have e: "extractDomain um [] = []" by (simp add: extractDomain_def)
  have s1: "DisplayNameStrategy_Detect um ?email None ?c = None"
    by (simp add: DisplayNameStrategy_Detect_def execTitles_def)
  have s2: "TyposquattingStrategy_Detect um ?email None ?c = None"
    by (simp add: TyposquattingStrategy_Detect_def e typosquatting_loop_Nil)
  have s3: "AuthFailuresStrategy_Detect um ?email None ?c = None"
    by (simp add: AuthFailuresStrategy_Detect_def AuthFailuresStrategy_failures_def)
  have "countKeywords '' '' uf_urgencyKeywords = 0" "countKeywords '' '' uf_financialKeywords = 0"
    "countKeywords '' '' uf_authorityKeywords = 0"
    by (simp_all add: countKeywords_def uf_urgencyKeywords_def uf_financialKeywords_def
          uf_authorityKeywords_def)
  then have s4: "UrgencyFinancialStrategy_Detect um ?email None ?c = None"
    using f64_pos [of "15 / 10"] by (simp add: UrgencyFinancialStrategy_Detect_def uf_score_0)
  have s5: "ReplyToStrategy_Detect um ?email None ?c = None"
    by (simp add: ReplyToStrategy_Detect_def header_def)
  have s6: "AttachmentStrategy_Detect um ?email None ?c = None"
    by (simp add: AttachmentStrategy_Detect_def)
  have s7: "BECRoleStrategy_Detect um ?email None ?c = None"
    by (simp add: BECRoleStrategy_Detect_def)
  have run: "runStrategies um (NewDetector internalDomains trustedDomains) ?email None = []"
    by (simp add: runStrategies_def NewDetector_def s1 s2 s3 s4 s5 s6 s7)
  have a: "AnalyzeEmail um (NewDetector internalDomains trustedDomains) ?email None =
         \<lparr>EmailID = i, RiskScore = 0, RiskLevel = ''none'', DetectedThreats = []\<rparr>"
    by (simp add: AnalyzeEmail_def run calculateRiskScore_Nil RiskLevelOf_0)
  have all: "list_all (\<lambda>strategy. Detect um strategy ?email None
                 (dcontext (NewDetector internalDomains trustedDomains)) = None)
               (strategies (NewDetector internalDomains trustedDomains))"
    by (simp add: NewDetector_def s1 s2 s3 s4 s5 s6 s7)
  have x: "CHR ''@'' \<notin> set address \<longrightarrow> extractDomain um address = []"
    by (simp add: extractDomain_def Split_no_separator)
  show ?thesis unfolding Let_def using all a x by blast
qed

theorem AnalyzeEmail_empty_message_witness:
  "CHR ''@'' \<notin> set ''not an address'' \<and> extractDomain id ''not an address'' = [] \<and>
   AnalyzeEmail id (NewDetector [''company.com''] [''microsoft.com''])
     \<lparr>ID = [], Subject = [], SenderEmail = [], SenderName = [], RecipientEmail = [],
      HasAttachments = False, AttachmentNames = [], BodyPreview = [], Headers = Map.empty\<rparr> None
   = \<lparr>EmailID = [], RiskScore = 0, RiskLevel = ''none'', DetectedThreats = []\<rparr>"
proof -
  have h: "CHR ''@'' \<notin> set ''not an address''" by simp
  show ?thesis
    using h AnalyzeEmail_empty_message [where um = id and i = "[]"
        and internalDomains = "[''company.com'']" and trustedDomains = "[''microsoft.com'']"
        and address = "''not an address''"]
    by (simp only: Let_def) blast
qed


section \<open>The weight of the HR payroll signal\<close>

lemma round64_0_8: "round64 (3602879701896397 / 4503599627370496) = 3602879701896397 / 4503599627370496"
  by (rule round64_value [where e = "-1" and m = 7205759403792794]) simp_all

text \<open>
  Claim C3. \<^verbatim>\<open>BEC_HR_PAYROLL_SCAM\<close>, the type of the HR signal of the BEC strategy, is
  not a key of the table \<^verbatim>\<open>weights\<close>, which has \<^verbatim>\<open>BEC_HR_W2_SCAM\<close> instead. So for
  every message whose only signal is that one, with its confidence \<open>0.80\<close>, the weight
  is the default \<open>1.0\<close>, the score of the analysis is exactly \<open>0.80\<close> and its level is
  \<open>high\<close>.
\<close>

theorem HR_payroll_default_weight:
  "map_of weights ''BEC_HR_PAYROLL_SCAM'' = None \<and>
   map_of weights ''BEC_HR_W2_SCAM'' = Some (f64 (14 / 10)) \<and>
   (map (\<lambda>x. (Type x, Confidence x)) (DetectedThreats (AnalyzeEmail um d email recipient)) =
      [(''BEC_HR_PAYROLL_SCAM'', f64 (80 / 100))] \<longrightarrow>
    RiskScore (AnalyzeEmail um d email recipient) = f64 (80 / 100) \<and>
    RiskLevel (AnalyzeEmail um d email recipient) = ''high'')"
proof -
  have w1: "map_of weights ''BEC_HR_PAYROLL_SCAM'' = None" by (simp add: weights_def)
  have w2: "map_of weights ''BEC_HR_W2_SCAM'' = Some (f64 (14 / 10))" by (simp add: weights_def)
  have w: "weightOf ''BEC_HR_PAYROLL_SCAM'' = 1" by (simp add: weightOf_def w1)
  have s: "calculateRiskScore [x] = f64 (80 / 100)"
    if "Type x = ''BEC_HR_PAYROLL_SCAM''" "Confidence x = f64 (80 / 100)" for x
  proof -
    have c: "Confidence x = 3602879701896397 / 4503599627370496"
      using that(2) by (simp only: f64_80_100)
    have "calculateRiskScore [x] = 3602879701896397 / 4503599627370496"
      by (simp add: calculateRiskScore_def fmul_def w that(1) c round64_0_8)
    then show ?thesis by (simp only: f64_80_100)
  qed
  have l: "RiskLevelOf (f64 (80 / 100)) = ''high''"
    unfolding RiskLevelOf_def f64_80_100 f64_85_100 f64_70_100 by simp
  have "RiskScore (AnalyzeEmail um d email recipient) = f64 (80 / 100) \<and>
        RiskLevel (AnalyzeEmail um d email recipient) = ''high''"
    if h: "map (\<lambda>x. (Type x, Confidence x)) (DetectedThreats (AnalyzeEmail um d email recipient)) =
             [(''BEC_HR_PAYROLL_SCAM'', f64 (80 / 100))]"
  proof -
    from h obtain x where x: "runStrategies um d email recipient = [x]"
      "Type x = ''BEC_HR_PAYROLL_SCAM''" "Confidence x = f64 (80 / 100)"
      by (auto simp: AnalyzeEmail_def Let_def)
    show ?thesis using s [OF x(2,3)] l by (simp add: AnalyzeEmail_def Let_def x(1))
  qed
  then show ?thesis using w1 w2 by blast
qed

theorem HR_payroll_default_weight_witness:
  "map (\<lambda>x. (Type x, Confidence x))
     (DetectedThreats (AnalyzeEmail id (NewDetector [] [])
        \<lparr>ID = [], Subject = [], SenderEmail = ''x@evil.com'', SenderName = [],
         RecipientEmail = [], HasAttachments = False, AttachmentNames = [],
         BodyPreview = ''salaires'', Headers = Map.empty\<rparr>
        (Some \<lparr>UserEmail = [], DisplayName = [], Role = ''HR''\<rparr>))) =
     [(''BEC_HR_PAYROLL_SCAM'', f64 (80 / 100))] \<and>
   RiskScore (AnalyzeEmail id (NewDetector [] [])
        \<lparr>ID = [], Subject = [], SenderEmail = ''x@evil.com'', SenderName = [],
         RecipientEmail = [], HasAttachments = False, AttachmentNames = [],
         BodyPreview = ''salaires'', Headers = Map.empty\<rparr>
        (Some \<lparr>UserEmail = [], DisplayName = [], Role = ''HR''\<rparr>)) = f64 (80 / 100) \<and>
   RiskLevel (AnalyzeEmail id (NewDetector [] [])
        \<lparr>ID = [], Subject = [], SenderEmail = ''x@evil.com'', SenderName = [],
         RecipientEmail = [], HasAttachments = False, AttachmentNames = [],
         BodyPreview = ''salaires'', Headers = Map.empty\<rparr>
        (Some \<lparr>UserEmail = [], DisplayName = [], Role = ''HR''\<rparr>)) = ''high''"
proof -
  let ?email = "\<lparr>ID = [], Subject = [], SenderEmail = ''x@evil.com'', SenderName = [],
         RecipientEmail = [], HasAttachments = False, AttachmentNames = [],
         BodyPreview = ''salaires'', Headers = Map.empty\<rparr>"
  let ?rcpt = "Some \<lparr>UserEmail = [], DisplayName = [], Role = ''HR''\<rparr>"
  let ?c = "NewDetectionContext [] []"
  have s1: "DisplayNameStrategy_Detect id ?email ?rcpt ?c = None" by code_simp
  have s2: "TyposquattingStrategy_Detect id ?email ?rcpt ?c = None"
    by (simp add: TyposquattingStrategy_Detect_def NewDetectionContext_def)
  have s3: "AuthFailuresStrategy_Detect id ?email ?rcpt ?c = None" by code_simp
  have t: "ToLower id ([] @ '' '' @ ''salaires'') = '' salaires''" by code_simp
  have "countKeywords '' salaires'' uf_urgencyKeywords = 0"
    "countKeywords '' salaires'' uf_financialKeywords = 0"
    "countKeywords '' salaires'' uf_authorityKeywords = 0"
    by code_simp+
  then have s4: "UrgencyFinancialStrategy_Detect id ?email ?rcpt ?c = None"
    using f64_pos [of "15 / 10"] t
    by (simp add: UrgencyFinancialStrategy_Detect_def uf_score_0)
  have s5: "ReplyToStrategy_Detect id ?email ?rcpt ?c = None" by code_simp
  have s6: "AttachmentStrategy_Detect id ?email ?rcpt ?c = None" by code_simp
  have r: "ToLower id ''HR'' = ''hr''" and dom: "extractDomain id ''x@evil.com'' = ''evil.com''"
    by code_simp+
  have k: "\<not> containsAny ''hr'' cSuiteRoles" "\<not> containsAny ''hr'' financeRoles"
    "containsAny ''hr'' hrRoles" "containsAny '' salaires'' payrollDocKeywords"
    by code_simp+
  have s7: "emits (BECRoleStrategy_Detect id ?email ?rcpt ?c) ''BEC_HR_PAYROLL_SCAM'' (f64 (80 / 100))"
    using t by (simp add: BECRoleStrategy_Detect_def Let_def NewDetectionContext_def r dom k emits_def)
  then obtain x where x: "BECRoleStrategy_Detect id ?email ?rcpt ?c = Some x"
    "Type x = ''BEC_HR_PAYROLL_SCAM''" "Confidence x = f64 (80 / 100)"
    by (auto simp: emits_def split: option.splits)
  have run: "runStrategies id (NewDetector [] []) ?email ?rcpt = [x]"
    by (simp add: runStrategies_def NewDetector_def s1 s2 s3 s4 s5 s6 x(1))
  have h: "map (\<lambda>x. (Type x, Confidence x))
     (DetectedThreats (AnalyzeEmail id (NewDetector [] []) ?email ?rcpt)) =
     [(''BEC_HR_PAYROLL_SCAM'', f64 (80 / 100))]"
    by (simp add: AnalyzeEmail_def Let_def run x(2,3))
  show ?thesis
    by (rule conjI [OF h HR_payroll_default_weight [where um = id and d = "NewDetector [] []"
        and email = ?email and recipient = ?rcpt, THEN conjunct2, THEN conjunct2, THEN mp, OF h]])
qed

section \<open>The edit distance\<close>

text \<open>The table that the loops fill holds the recurrence at every entry.\<close>

lemma lev_entry_col [simp]: "lev_entry s1 s2 i 0 = i"
  by (cases i) simp_all

lemma init_col:
  "k \<le> length M \<Longrightarrow>
   length (fold (\<lambda>i m. m[i := (m ! i)[0 := i]]) [0..<k] M) = length M \<and>
   (\<forall>i < length M. fold (\<lambda>i m. m[i := (m ! i)[0 := i]]) [0..<k] M ! i =
       (if i < k then (M ! i)[0 := i] else M ! i))"
  by (induction k) (auto simp: nth_list_update)

lemma init_row_aux:
  "length (fold (\<lambda>j r. r[j := j]) [0..<c] r) = length r \<and>
   (\<forall>j < length r. fold (\<lambda>j r. r[j := j]) [0..<c] r ! j = (if j < c then j else r ! j))"
proof (induction c)
  case 0
  show ?case by simp
next
  case (Suc c)
  let ?F = "fold (\<lambda>j r. r[j := j]) [0..<c] r"
  have f: "fold (\<lambda>j r. r[j := j]) [0..<Suc c] r = ?F[c := c]" by simp
  have "?F[c := c] ! j = (if j < Suc c then j else r ! j)" if "j < length r" for j
  proof (cases "j = c")
    case True
    then show ?thesis using that Suc.IH by simp
  next
    case False
    then show ?thesis using that Suc.IH by (simp add: less_Suc_eq)
  qed
  then show ?case unfolding f using Suc.IH by simp
qed

lemma init_row:
  "fold (\<lambda>j m. m[0 := (m ! 0)[j := j]]) [0..<c] M = M[0 := fold (\<lambda>j r. r[j := j]) [0..<c] (M ! 0)]"
  if "0 < length M"
  using that by (induction c) (auto simp: nth_list_update)

lemma lev_init_props:
  "length (lev_init n1 n2) = n1 + 1"
  "i \<le> n1 \<Longrightarrow> length (lev_init n1 n2 ! i) = n2 + 1"
  "i \<le> n1 \<Longrightarrow> lev_init n1 n2 ! i ! 0 = i"
  "j \<le> n2 \<Longrightarrow> lev_init n1 n2 ! 0 ! j = j"
proof -
  define row where "row = replicate (n2 + 1) (0::nat)"
  define M0 where "M0 = replicate (n1 + 1) row"
  define M1 where "M1 = fold (\<lambda>i m. m[i := (m ! i)[0 := i]]) [0..<n1 + 1] M0"
  define r0 where "r0 = fold (\<lambda>j r. r[j := j]) [0..<n2 + 1] (M1 ! 0)"
  have lrow: "length row = n2 + 1" by (simp add: row_def)
  have lM0: "length M0 = n1 + 1" by (simp add: M0_def)
  have nM0: "M0 ! i = row" if "i < n1 + 1" for i
    unfolding M0_def using that by (rule nth_replicate)
  have c: "length M1 = length M0 \<and>
           (\<forall>i < length M0. M1 ! i = (if i < n1 + 1 then (M0 ! i)[0 := i] else M0 ! i))"
    unfolding M1_def by (rule init_col) (simp add: lM0)
  then have lM1: "length M1 = n1 + 1" and nM1: "\<And>i. i < n1 + 1 \<Longrightarrow> M1 ! i = row[0 := i]"
    using lM0 nM0 by auto
  have r: "length r0 = length (M1 ! 0) \<and>
           (\<forall>j < length (M1 ! 0). r0 ! j = (if j < n2 + 1 then j else M1 ! 0 ! j))"
    unfolding r0_def by (rule init_row_aux)
  have lM10: "length (M1 ! 0) = n2 + 1" using nM1 [of 0] lrow by simp
  have lr0: "length r0 = n2 + 1" and nr0: "\<And>j. j < n2 + 1 \<Longrightarrow> r0 ! j = j"
    using r lM10 by auto
  have "lev_init n1 n2 = fold (\<lambda>j m. m[0 := (m ! 0)[j := j]]) [0..<n2 + 1] M1"
    by (simp only: lev_init_def Let_def M1_def M0_def row_def)
  also have "\<dots> = M1[0 := r0]"
    unfolding r0_def by (rule init_row) (simp add: lM1)
  finally have M: "lev_init n1 n2 = M1[0 := r0]" .
  show "length (lev_init n1 n2) = n1 + 1" by (simp only: M length_list_update lM1)
  have row_i: "lev_init n1 n2 ! i = (if i = 0 then r0 else row[0 := i])" if "i \<le> n1" for i
    using that lM1 nM1 [of i] by (simp add: M nth_list_update)
  show "length (lev_init n1 n2 ! i) = n2 + 1" if "i \<le> n1"
    using row_i [OF that] lr0 lrow by simp
  show "lev_init n1 n2 ! i ! 0 = i" if "i \<le> n1"
    using row_i [OF that] nr0 [of 0] lrow by simp
  show "lev_init n1 n2 ! 0 ! j = j" if "j \<le> n2"
    using row_i [of 0] nr0 [of j] that by simp
qed

lemma lev_cell_props:
  assumes "i < length M" "j < length (M ! i)"
  shows "length (lev_cell s1 s2 i j M) = length M"
    and "\<And>i'. i' \<noteq> i \<Longrightarrow> lev_cell s1 s2 i j M ! i' = M ! i'"
    and "length (lev_cell s1 s2 i j M ! i) = length (M ! i)"
    and "\<And>j'. j' \<noteq> j \<Longrightarrow> lev_cell s1 s2 i j M ! i ! j' = M ! i ! j'"
    and "lev_cell s1 s2 i j M ! i ! j =
           min3 (M ! (i - 1) ! j + 1) (M ! i ! (j - 1) + 1)
                (M ! (i - 1) ! (j - 1) + (if s1 ! (i - 1) = s2 ! (j - 1) then 0 else 1))"
  using assms by (simp_all add: lev_cell_def Let_def)

lemma inner_loop:
  assumes "i < length M" "0 < i" "c < length (M ! i)"
    and prev: "\<forall>j < length (M ! i). M ! (i - 1) ! j = lev_entry s1 s2 (i - 1) j"
    and first: "M ! i ! 0 = i"
  shows "length (fold (lev_cell s1 s2 i) [1..<c + 1] M) = length M \<and>
         (\<forall>i'. i' \<noteq> i \<longrightarrow> fold (lev_cell s1 s2 i) [1..<c + 1] M ! i' = M ! i') \<and>
         length (fold (lev_cell s1 s2 i) [1..<c + 1] M ! i) = length (M ! i) \<and>
         (\<forall>j \<le> c. fold (lev_cell s1 s2 i) [1..<c + 1] M ! i ! j = lev_entry s1 s2 i j)"
  using assms(3)
proof (induction c)
  case 0
  show ?case using first by simp
next
  case (Suc c)
  let ?Mc = "fold (lev_cell s1 s2 i) [1..<c + 1] M"
  have ih: "length ?Mc = length M" "\<And>i'. i' \<noteq> i \<Longrightarrow> ?Mc ! i' = M ! i'"
    "length (?Mc ! i) = length (M ! i)" "\<And>j. j \<le> c \<Longrightarrow> ?Mc ! i ! j = lev_entry s1 s2 i j"
    using Suc.IH Suc.prems by auto
  have f: "fold (lev_cell s1 s2 i) [1..<Suc c + 1] M = lev_cell s1 s2 i (Suc c) ?Mc" by simp
  have a: "i < length ?Mc" "Suc c < length (?Mc ! i)"
    using ih(1,3) assms(1) Suc.prems by simp_all
  note p = lev_cell_props [OF a, where ?s1.0 = s1 and ?s2.0 = s2]
  obtain i0 where i0: "i = Suc i0" using assms(2) by (cases i) auto
  have up: "?Mc ! (i - 1) ! j = lev_entry s1 s2 i0 j" if "j < length (M ! i)" for j
    using ih(2) [of "i - 1"] prev that i0 by simp
  have new: "lev_cell s1 s2 i (Suc c) ?Mc ! i ! Suc c = lev_entry s1 s2 i (Suc c)"
    using p(5) up [of "Suc c"] up [of c] ih(4) [of c] Suc.prems i0 by simp
  have old: "lev_cell s1 s2 i (Suc c) ?Mc ! i ! j = lev_entry s1 s2 i j" if "j \<le> c" for j
    using p(4) [of j] ih(4) [of j] that by simp
  have all: "lev_cell s1 s2 i (Suc c) ?Mc ! i ! j = lev_entry s1 s2 i j" if "j \<le> Suc c" for j
    using that new old by (cases "j = Suc c") simp_all
  show ?case unfolding f using p(1,2,3) ih(1,2,3) all by simp
qed

lemma outer_loop:
  assumes dims: "length M = n1 + 1" "\<forall>i \<le> n1. length (M ! i) = n2 + 1"
    and col: "\<forall>i \<le> n1. M ! i ! 0 = i" and row: "\<forall>j \<le> n2. M ! 0 ! j = j"
    and "k \<le> n1"
  shows "length (fold (\<lambda>i. fold (lev_cell s1 s2 i) [1..<n2 + 1]) [1..<k + 1] M) = n1 + 1 \<and>
    (\<forall>i \<le> n1. length (fold (\<lambda>i. fold (lev_cell s1 s2 i) [1..<n2 + 1]) [1..<k + 1] M ! i) = n2 + 1) \<and>
    (\<forall>i. k < i \<longrightarrow> fold (\<lambda>i. fold (lev_cell s1 s2 i) [1..<n2 + 1]) [1..<k + 1] M ! i = M ! i) \<and>
    (\<forall>i \<le> k. \<forall>j \<le> n2.
        fold (\<lambda>i. fold (lev_cell s1 s2 i) [1..<n2 + 1]) [1..<k + 1] M ! i ! j = lev_entry s1 s2 i j)"
  using assms(5)
proof (induction k)
  case 0
  show ?case using dims row by simp
next
  case (Suc k)
  let ?Mk = "fold (\<lambda>i. fold (lev_cell s1 s2 i) [1..<n2 + 1]) [1..<k + 1] M"
  have ih: "length ?Mk = n1 + 1" "\<And>i. i \<le> n1 \<Longrightarrow> length (?Mk ! i) = n2 + 1"
    "\<And>i. k < i \<Longrightarrow> ?Mk ! i = M ! i"
    "\<And>i j. i \<le> k \<Longrightarrow> j \<le> n2 \<Longrightarrow> ?Mk ! i ! j = lev_entry s1 s2 i j"
    using Suc.IH Suc.prems by auto
  have f: "fold (\<lambda>i. fold (lev_cell s1 s2 i) [1..<n2 + 1]) [1..<Suc k + 1] M
             = fold (lev_cell s1 s2 (Suc k)) [1..<n2 + 1] ?Mk" by simp
  have "length (fold (lev_cell s1 s2 (Suc k)) [1..<n2 + 1] ?Mk) = length ?Mk \<and>
         (\<forall>i'. i' \<noteq> Suc k \<longrightarrow> fold (lev_cell s1 s2 (Suc k)) [1..<n2 + 1] ?Mk ! i' = ?Mk ! i') \<and>
         length (fold (lev_cell s1 s2 (Suc k)) [1..<n2 + 1] ?Mk ! Suc k) = length (?Mk ! Suc k) \<and>
         (\<forall>j \<le> n2. fold (lev_cell s1 s2 (Suc k)) [1..<n2 + 1] ?Mk ! Suc k ! j
                     = lev_entry s1 s2 (Suc k) j)"
  proof (rule inner_loop)
    show "Suc k < length ?Mk" using ih(1) Suc.prems by simp
    show "0 < Suc k" by simp
    show "n2 < length (?Mk ! Suc k)" using ih(2) [of "Suc k"] Suc.prems by simp
    show "\<forall>j < length (?Mk ! Suc k). ?Mk ! (Suc k - 1) ! j = lev_entry s1 s2 (Suc k - 1) j"
      using ih(2) [of "Suc k"] ih(4) [of k] Suc.prems by simp
    show "?Mk ! Suc k ! 0 = Suc k" using ih(3) [of "Suc k"] col Suc.prems by simp
  qed
  then have n: "length (fold (lev_cell s1 s2 (Suc k)) [1..<n2 + 1] ?Mk) = length ?Mk"
    "\<And>i'. i' \<noteq> Suc k \<Longrightarrow> fold (lev_cell s1 s2 (Suc k)) [1..<n2 + 1] ?Mk ! i' = ?Mk ! i'"
    "length (fold (lev_cell s1 s2 (Suc k)) [1..<n2 + 1] ?Mk ! Suc k) = length (?Mk ! Suc k)"
    "\<And>j. j \<le> n2 \<Longrightarrow> fold (lev_cell s1 s2 (Suc k)) [1..<n2 + 1] ?Mk ! Suc k ! j
                     = lev_entry s1 s2 (Suc k) j"
    by auto
  let ?N = "fold (lev_cell s1 s2 (Suc k)) [1..<n2 + 1] ?Mk"
  have d1: "length ?N = n1 + 1" using n(1) ih(1) by simp
  have d2: "length (?N ! i) = n2 + 1" if "i \<le> n1" for i
    using n(2) [of i] n(3) ih(2) [OF that] ih(2) [of "Suc k"] Suc.prems
    by (cases "i = Suc k") simp_all
  have d3: "?N ! i = M ! i" if "Suc k < i" for i
    using n(2) [of i] ih(3) [of i] that by simp
  have d4: "?N ! i ! j = lev_entry s1 s2 i j" if "i \<le> Suc k" "j \<le> n2" for i j
    using n(2) [of i] n(4) [OF that(2)] ih(4) [of i j] that
    by (cases "i = Suc k") simp_all
  show ?case unfolding f using d1 d2 d3 d4 by simp
qed

lemma levenshteinDistance_lev_entry:
  "levenshteinDistance s1 s2 = lev_entry s1 s2 (length s1) (length s2)"
proof (cases "length s1 = 0 \<or> length s2 = 0")
  case True
  then show ?thesis by (auto simp: levenshteinDistance_def)
next
  case False
  let ?M = "lev_init (length s1) (length s2)"
  let ?F = "fold (\<lambda>i. fold (lev_cell s1 s2 i) [1..<length s2 + 1]) [1..<length s1 + 1] ?M"
  have "length ?F = length s1 + 1 \<and>
    (\<forall>i \<le> length s1. length (?F ! i) = length s2 + 1) \<and>
    (\<forall>i. length s1 < i \<longrightarrow> ?F ! i = ?M ! i) \<and>
    (\<forall>i \<le> length s1. \<forall>j \<le> length s2. ?F ! i ! j = lev_entry s1 s2 i j)"
  proof (rule outer_loop)
    show "length ?M = length s1 + 1" by (rule lev_init_props(1))
    show "\<forall>i \<le> length s1. length (?M ! i) = length s2 + 1" using lev_init_props(2) by blast
    show "\<forall>i \<le> length s1. ?M ! i ! 0 = i" using lev_init_props(3) by blast
    show "\<forall>j \<le> length s2. ?M ! 0 ! j = j" using lev_init_props(4) by blast
    show "length s1 \<le> length s1" by simp
  qed
  then have "?F ! length s1 ! length s2 = lev_entry s1 s2 (length s1) (length s2)" by blast
  then have "lev_fill s1 s2 ?M ! length s1 ! length s2 = lev_entry s1 s2 (length s1) (length s2)"
    by (simp only: lev_fill_def)
  then show ?thesis using False by (simp add: levenshteinDistance_def)
qed

lemma min3_commute: "min3 a b c = min3 b a c"
  by (simp add: min3_def min.commute)

lemma lev_entry_sym: "lev_entry s1 s2 i j = lev_entry s2 s1 j i"
proof (induction s1 s2 i j rule: lev_entry.induct)
  case (3 s1 s2 i j)
  have "(s1 ! i = s2 ! j) = (s2 ! j = s1 ! i)" by auto
  then show ?case using 3 min3_commute by simp
qed simp_all

lemma lev_entry_diag: "lev_entry s s i i = 0"
  by (induction i) (simp_all add: min3_def)

lemma lev_entry_zero:
  "lev_entry s1 s2 i j = 0 \<Longrightarrow> i \<le> length s1 \<Longrightarrow> j \<le> length s2 \<Longrightarrow> take i s1 = take j s2"
proof (induction s1 s2 i j rule: lev_entry.induct)
  case (3 s1 s2 i j)
  from "3.prems"(1) have z: "lev_entry s1 s2 i j = 0" "s1 ! i = s2 ! j"
    by (auto simp: min3_def min_def split: if_splits)
  have "take i s1 = take j s2" using "3.IH"(3) z(1) "3.prems"(2,3) by simp
  then show ?case using z(2) "3.prems"(2,3) by (simp add: take_Suc_conv_app_nth)
qed simp_all

text \<open>
  Claim C6. The edit distance is symmetric, it is \<open>0\<close> between a string and itself,
  it is the length of \<open>s\<close> between the empty string and \<open>s\<close>, and it is \<open>0\<close>
  exactly when the two strings are equal.
\<close>

theorem levenshteinDistance_metric:
  "levenshteinDistance a b = levenshteinDistance b a \<and>
   levenshteinDistance s s = 0 \<and>
   levenshteinDistance [] s = length s \<and>
   (levenshteinDistance a b = 0) = (a = b)"
proof -
  have "a = b" if "levenshteinDistance a b = 0"
    using lev_entry_zero [of a b "length a" "length b"] that
    by (simp add: levenshteinDistance_lev_entry)
  then show ?thesis
    using lev_entry_sym [of a b "length a" "length b"] lev_entry_diag
    by (auto simp: levenshteinDistance_lev_entry)
qed

section \<open>The typosquatting strategy\<close>

lemma typosquatting_loop_find:
  "typosquatting_loop sd ts =
     (case List.find (\<lambda>t. t \<noteq> sd \<and> 85 < similarity sd t \<and> similarity sd t < 100) ts of
        None \<Rightarrow> None
      | Some t \<Rightarrow>
          Some \<lparr>Type = ''DOMAIN_TYPOSQUATTING'', Confidence = f64 (90 / 100),
                 Evidence = ''Sender domain '' @ [CHR 0x27] @ sd @ [CHR 0x27] @
                   '' is '' @ FormatFixed 1 (similarity sd t) @
                   ''% similar to trusted domain '' @ [CHR 0x27] @ t @
                   [CHR 0x27] @ '' (potential typosquatting)''\<rparr>)"
  by (induction ts) auto

lemma typosquatting_loop_skip:
  "typosquatting_loop sd (filter (\<lambda>t. t \<noteq> sd) ts) = typosquatting_loop sd ts"
  by (induction ts) auto

lemma levenshteinDistance_micros0ft:
  "levenshteinDistance ''micros0ft.com'' ''microsoft.com'' = 1"
  by code_simp

lemma similarity_micros0ft:
  "similarity ''micros0ft.com'' ''microsoft.com'' = 6495576385630523 / 70368744177664"
proof -
  have "fdiv (float64_of_nat 1) (float64_of_nat 13) = 1385722962267845 / 18014398509481984"
    by (simp add: fdiv_def float64_of_nat_def round64_13 round64_1_13)
  moreover have "fsub 1 (1385722962267845 / 18014398509481984) = 4157168886803535 / 4503599627370496"
    using round64_sub_1_13 by (simp add: fsub_def)
  moreover have "fmul (4157168886803535 / 4503599627370496) 100 = 6495576385630523 / 70368744177664"
    using round64_mul_100 by (simp add: fmul_def)
  moreover have "max (length ''micros0ft.com'') (length ''microsoft.com'') = 13" by simp
  ultimately show ?thesis
    by (simp only: similarity_def Let_def levenshteinDistance_micros0ft)
qed

text \<open>
  Claim C5. The typosquatting strategy goes through the trusted domains in their order,
  skips a trusted domain equal to the sender's domain, computes for the others the
  similarity \<^verbatim>\<open>(1 - distance / max(len(senderDomain), len(trustedDomain))) * 100\<close>, and
  emits a signal of confidence \<open>0.90\<close> at the first one whose similarity is above
  \<open>85\<close> and below \<open>100\<close>; it returns no signal when there is none. Removing the
  trusted domains equal to the sender's domain does not change the result. The sender
  domain \<^verbatim>\<open>micros0ft.com\<close> against the trusted domain \<^verbatim>\<open>microsoft.com\<close> gives
  the signal; the sender domain \<^verbatim>\<open>microsoft.com\<close> gives none.
\<close>

theorem TyposquattingStrategy_first_similar:
  "(let senderDomain = extractDomain um (SenderEmail email);
        sim = (\<lambda>trustedDomain.
          fmul (fsub 1 (fdiv (float64_of_nat (levenshteinDistance senderDomain trustedDomain))
                             (float64_of_nat (max (length senderDomain) (length trustedDomain)))))
               100);
        r = TyposquattingStrategy_Detect um email recipient context
    in (case List.find (\<lambda>t. t \<noteq> senderDomain \<and> 85 < sim t \<and> sim t < 100) (TrustedDomains context) of
          None \<Rightarrow> r = None
        | Some t \<Rightarrow>
            r = Some \<lparr>Type = ''DOMAIN_TYPOSQUATTING'', Confidence = f64 (90 / 100),
                   Evidence = ''Sender domain '' @ [CHR 0x27] @ senderDomain @ [CHR 0x27] @
                     '' is '' @ FormatFixed 1 (sim t) @
                     ''% similar to trusted domain '' @ [CHR 0x27] @ t @
                     [CHR 0x27] @ '' (potential typosquatting)''\<rparr>) \<and>
       r = TyposquattingStrategy_Detect um email recipient
             (context\<lparr>TrustedDomains := filter (\<lambda>t. t \<noteq> senderDomain) (TrustedDomains context)\<rparr>)) \<and>
   emits (TyposquattingStrategy_Detect um (email\<lparr>SenderEmail := ''user@micros0ft.com''\<rparr>) recipient
            (context\<lparr>TrustedDomains := [''microsoft.com'']\<rparr>))
     ''DOMAIN_TYPOSQUATTING'' (f64 (90 / 100)) \<and>
   TyposquattingStrategy_Detect um (email\<lparr>SenderEmail := ''user@microsoft.com''\<rparr>) recipient
     (context\<lparr>TrustedDomains := [''microsoft.com'']\<rparr>) = None"
proof -
  let ?sd = "extractDomain um (SenderEmail email)"
  have a: "case List.find (\<lambda>t. t \<noteq> ?sd \<and> 85 < similarity ?sd t \<and> similarity ?sd t < 100)
                 (TrustedDomains context) of
          None \<Rightarrow> TyposquattingStrategy_Detect um email recipient context = None
        | Some t \<Rightarrow> TyposquattingStrategy_Detect um email recipient context =
            Some \<lparr>Type = ''DOMAIN_TYPOSQUATTING'', Confidence = f64 (90 / 100),
                   Evidence = ''Sender domain '' @ [CHR 0x27] @ ?sd @ [CHR 0x27] @
                     '' is '' @ FormatFixed 1 (similarity ?sd t) @
                     ''% similar to trusted domain '' @ [CHR 0x27] @ t @
                     [CHR 0x27] @ '' (potential typosquatting)''\<rparr>"
    unfolding TyposquattingStrategy_Detect_def typosquatting_loop_find
    by (simp split: option.split)
  have b: "TyposquattingStrategy_Detect um email recipient context =
           TyposquattingStrategy_Detect um email recipient
             (context\<lparr>TrustedDomains := filter (\<lambda>t. t \<noteq> ?sd) (TrustedDomains context)\<rparr>)"
    by (simp add: TyposquattingStrategy_Detect_def typosquatting_loop_skip)
  have d1: "extractDomain um ''user@micros0ft.com'' = ''micros0ft.com''"
    and d2: "extractDomain um ''user@microsoft.com'' = ''microsoft.com''"
    by code_simp+
  have c: "emits (TyposquattingStrategy_Detect um (email\<lparr>SenderEmail := ''user@micros0ft.com''\<rparr>)
             recipient (context\<lparr>TrustedDomains := [''microsoft.com'']\<rparr>))
           ''DOMAIN_TYPOSQUATTING'' (f64 (90 / 100))"
    by (simp add: TyposquattingStrategy_Detect_def d1 similarity_micros0ft emits_def)
  have d: "TyposquattingStrategy_Detect um (email\<lparr>SenderEmail := ''user@microsoft.com''\<rparr>)
             recipient (context\<lparr>TrustedDomains := [''microsoft.com'']\<rparr>) = None"
    by (simp add: TyposquattingStrategy_Detect_def d2)
  show ?thesis unfolding Let_def using a [unfolded similarity_def Let_def] b c d by (intro conjI)
qed

section \<open>The urgency and financial language strategy\<close>

lemma countKeywords_fold:
  "fold (\<lambda>keyword count. if Contains text keyword then count + 1 else count) ks n
     = n + length (filter (Contains text) ks)"
  by (induction ks arbitrary: n) simp_all

lemma countKeywords_filter:
  "countKeywords text ks = length (filter (Contains text) ks)"
  by (simp add: countKeywords_def countKeywords_fold)

lemma uf_confidence_bounds:
  assumes "f64 (15 / 10) < score"
  shows "f64 (70 / 100) \<le> uf_confidence score \<and> uf_confidence score \<le> f64 (95 / 100)"
proof -
  have d: "0 \<le> fsub score (f64 (15 / 10))"
    unfolding fsub_def using assms by (intro round64_nonneg) simp
  have "0 \<le> f64 (1 / 10)" using f64_pos [of "1 / 10"] by simp
  then have p: "0 \<le> fmul (fsub score (f64 (15 / 10))) (f64 (1 / 10))"
    unfolding fmul_def using d by (intro round64_nonneg) simp
  define z where "z = fmul (fsub score (f64 (15 / 10))) (f64 (1 / 10))"
  have c: "f64 (70 / 100) = of_int 6305039478318694 * 2 powi (- 1 - 52)"
    unfolding f64_70_100 by simp
  have "of_int 6305039478318694 * 2 powi (- 1 - 52) \<le> round64 (f64 (70 / 100) + z)"
  proof (rule round64_lower)
    show "(2::int) ^ 52 \<le> 6305039478318694" by simp
    show "(6305039478318694::int) < 2 ^ 53" by simp
    show "of_int 6305039478318694 * 2 powi (- 1 - 52) \<le> f64 (70 / 100) + z"
      using p unfolding z_def c [symmetric] by simp
  qed
  then have q: "f64 (70 / 100) \<le> fadd (f64 (70 / 100)) z"
    unfolding fadd_def c [symmetric] .
  have "f64 (70 / 100) \<le> f64 (95 / 100)" unfolding f64_70_100 f64_95_100 by simp
  then show ?thesis using q unfolding uf_confidence_def z_def by simp
qed

lemma uf_score_1_0_6: "uf_score 1 0 6 = 6755399441055745 / 4503599627370496"
proof -
  have "fmul (float64_of_nat 1) (f64 (3 / 10)) = 5404319552844595 / 18014398509481984"
    unfolding fmul_def float64_of_nat_def f64_3_10 by (simp add: round64_0_3)
  moreover have "fmul (float64_of_nat 0) (f64 (5 / 10)) = 0"
    by (simp add: fmul_def)
  moreover have "fadd (5404319552844595 / 18014398509481984) 0
                   = 5404319552844595 / 18014398509481984"
    by (simp add: fadd_def round64_0_3)
  moreover have "fmul (float64_of_nat 6) (f64 (2 / 10)) = 1351079888211149 / 1125899906842624"
    unfolding fmul_def float64_of_nat_def f64_2_10 using round64_6 round64_6_0_2 by simp
  moreover have "fadd (5404319552844595 / 18014398509481984)
                      (1351079888211149 / 1125899906842624)
                   = 6755399441055745 / 4503599627370496"
    unfolding fadd_def using round64_score_1_0_6 by simp
  ultimately show ?thesis by (simp only: uf_score_def)
qed

lemma uf_confidence_1_0_6:
  "uf_confidence (6755399441055745 / 4503599627370496) = f64 (70 / 100)"
proof -
  have "fsub (6755399441055745 / 4503599627370496) (f64 (15 / 10)) = 1 / 4503599627370496"
    unfolding fsub_def f64_15_10 using round64_excess by simp
  moreover have "fmul (1 / 4503599627370496) (f64 (1 / 10))
                   = 3602879701896397 / 162259276829213363391578010288128"
    unfolding fmul_def f64_1_10 using round64_increment by simp
  moreover have "fadd (f64 (70 / 100)) (3602879701896397 / 162259276829213363391578010288128)
                   = f64 (70 / 100)"
    unfolding fadd_def f64_70_100 using round64_confidence by simp
  moreover have "min (f64 (70 / 100)) (f64 (95 / 100)) = f64 (70 / 100)"
    unfolding f64_70_100 f64_95_100 by simp
  ultimately show ?thesis by (simp only: uf_confidence_def)
qed

lemma UrgencyFinancialStrategy_Detect_emits:
  assumes "ToLower um (Subject email @ '' '' @ BodyPreview email) = lowered"
    and "countKeywords lowered uf_urgencyKeywords = u"
    and "countKeywords lowered uf_financialKeywords = f"
    and "countKeywords lowered uf_authorityKeywords = a"
    and "f64 (15 / 10) < uf_score u f a"
  shows "emits (UrgencyFinancialStrategy_Detect um email recipient context)
           ''URGENCY_FINANCIAL_LANGUAGE'' (uf_confidence (uf_score u f a))"
  using assms(5) unfolding UrgencyFinancialStrategy_Detect_def Let_def assms(1,2,3,4) emits_def
  by simp

text \<open>
  Claim C7 as stated fails in \<^verbatim>\<open>float64\<close>. The text below has one urgency keyword,
  no financial keyword and six authority keywords. \<^verbatim>\<open>6 * 0.2\<close> rounds to
  \<open>1.2000000000000002\<close> and the score to \<open>1.5000000000000002\<close>, above the
  threshold, so a signal is emitted; the increment \<^verbatim>\<open>(score - 1.5) * 0.1\<close> is lost
  when it is added to \<open>0.70\<close>, so the confidence is \<open>0.70\<close> itself, not above it.
\<close>

theorem UrgencyFinancialStrategy_confidence_equals_70:
  "emits (UrgencyFinancialStrategy_Detect id
            \<lparr>ID = [], Subject = ''urgent'', SenderEmail = [], SenderName = [],
             RecipientEmail = [], HasAttachments = False, AttachmentNames = [],
             BodyPreview = ''ceo president director approved authorized confidential'',
             Headers = Map.empty\<rparr>
            None \<lparr>InternalDomains = [], TrustedDomains = []\<rparr>)
     ''URGENCY_FINANCIAL_LANGUAGE'' (f64 (70 / 100)) \<and>
   \<not> f64 (70 / 100) < f64 (70 / 100)"
proof -
  let ?lowered = "''urgent ceo president director approved authorized confidential''"
  let ?email = "\<lparr>ID = [], Subject = ''urgent'', SenderEmail = [], SenderName = [],
             RecipientEmail = [], HasAttachments = False, AttachmentNames = [],
             BodyPreview = ''ceo president director approved authorized confidential'',
             Headers = Map.empty\<rparr>"
  have "emits (UrgencyFinancialStrategy_Detect id ?email None
                 \<lparr>InternalDomains = [], TrustedDomains = []\<rparr>)
          ''URGENCY_FINANCIAL_LANGUAGE'' (uf_confidence (uf_score 1 0 6))"
  proof (rule UrgencyFinancialStrategy_Detect_emits [where lowered = ?lowered])
    show "ToLower id (Subject ?email @ '' '' @ BodyPreview ?email) = ?lowered" by code_simp
    show "countKeywords ?lowered uf_urgencyKeywords = 1" by code_simp
    show "countKeywords ?lowered uf_financialKeywords = 0" by code_simp
    show "countKeywords ?lowered uf_authorityKeywords = 6" by code_simp
    show "f64 (15 / 10) < uf_score 1 0 6" unfolding uf_score_1_0_6 f64_15_10 by simp
  qed
  then show ?thesis unfolding uf_score_1_0_6 uf_confidence_1_0_6 by simp
qed

text \<open>
  Claim C7, amended. The urgency and financial strategy counts, for each of its three
  vocabularies, the keywords present in the lower-cased subject and body (a keyword
  counts once), and computes \<^verbatim>\<open>score = 0.3*urgencyCount + 0.5*financialCount +
  0.2*authorityCount\<close>. It emits a signal exactly when \<^verbatim>\<open>score > 1.5\<close>, with confidence
  \<^verbatim>\<open>min(0.70 + (score - 1.5) * 0.1, 0.95)\<close>; every emitted confidence is at least
  \<open>0.70\<close> and at most \<open>0.95\<close>.
\<close>

theorem UrgencyFinancialStrategy_score_and_confidence:
  "(let text = ToLower um (Subject email @ '' '' @ BodyPreview email);
        urgencyCount = length (filter (Contains text) uf_urgencyKeywords);
        financialCount = length (filter (Contains text) uf_financialKeywords);
        authorityCount = length (filter (Contains text) uf_authorityKeywords);
        score = fadd (fadd (fmul (float64_of_nat urgencyCount) (f64 (3 / 10)))
                           (fmul (float64_of_nat financialCount) (f64 (5 / 10))))
                     (fmul (float64_of_nat authorityCount) (f64 (2 / 10)));
        confidence = min (fadd (f64 (70 / 100)) (fmul (fsub score (f64 (15 / 10))) (f64 (1 / 10))))
                         (f64 (95 / 100));
        r = UrgencyFinancialStrategy_Detect um email recipient context
    in if f64 (15 / 10) < score
       then emits r ''URGENCY_FINANCIAL_LANGUAGE'' confidence \<and>
            f64 (70 / 100) \<le> confidence \<and> confidence \<le> f64 (95 / 100)
       else r = None)"
proof -
  define lowered where "lowered = ToLower um (Subject email @ '' '' @ BodyPreview email)"
  define score where "score = uf_score (countKeywords lowered uf_urgencyKeywords)
    (countKeywords lowered uf_financialKeywords) (countKeywords lowered uf_authorityKeywords)"
  have r: "UrgencyFinancialStrategy_Detect um email recipient context =
     (if f64 (15 / 10) < score
      then Some \<lparr>Type = ''URGENCY_FINANCIAL_LANGUAGE'', Confidence = uf_confidence score,
        Evidence = ''High-risk language detected (score: '' @ FormatFixed 2 score @
          ''): '' @ Itoa (countKeywords lowered uf_urgencyKeywords) @ '' urgency, '' @
          Itoa (countKeywords lowered uf_financialKeywords) @
          '' financial, '' @ Itoa (countKeywords lowered uf_authorityKeywords) @
          '' authority keywords''\<rparr>
      else None)"
    unfolding UrgencyFinancialStrategy_Detect_def Let_def score_def lowered_def ..
  have "if f64 (15 / 10) < score
        then emits (UrgencyFinancialStrategy_Detect um email recipient context)
               ''URGENCY_FINANCIAL_LANGUAGE'' (uf_confidence score) \<and>
             f64 (70 / 100) \<le> uf_confidence score \<and> uf_confidence score \<le> f64 (95 / 100)
        else UrgencyFinancialStrategy_Detect um email recipient context = None"
    using uf_confidence_bounds [of score] by (simp add: r emits_def)
  then show ?thesis
    unfolding Let_def score_def lowered_def uf_score_def uf_confidence_def countKeywords_filter .
qed

end
